theory Spec2Isabelle
  imports Complex_Main "HOL-Library.AList" "HOL-Library.Multiset"
begin

section \<open>Data model\<close>

text \<open>
  The programs work on Biopython's structure objects. A residue identifier is the triple
  returned by \<open>get_id()\<close>: the hetero flag (\<open>" "\<close> for an ordinary residue, \<open>"W"\<close> for a
  water, \<open>"H_..."\<close> for a heteroatom residue), the sequence number and the insertion code.
  An atom is an object with identity: its coordinate lives on a heap at \<open>atom_addr\<close>, and
  \<open>atom_parent\<close> is the back reference \<open>get_parent()\<close> to the header of the owning residue
  (identifier and name), which nothing in these programs ever changes.
\<close>

type_synonym res_ident = "string \<times> int \<times> string"

record residue_hdr =
  res_id :: res_ident
  res_name :: string

record atom =
  atom_name :: string
  atom_parent :: residue_hdr
  atom_addr :: nat

record residue = residue_hdr +
  res_atoms :: "atom list"

type_synonym chain = "residue list"

datatype error = ValueError | KeyError | FitError

section \<open>gmx2pdb_strip.py: the filter of the converter\<close>

definition standard_aa :: "string list" where
  "standard_aa = [''ALA'', ''ARG'', ''ASN'', ''ASP'', ''CYS'', ''GLN'', ''GLU'', ''GLY'',
     ''HIS'', ''ILE'', ''LEU'', ''LYS'', ''MET'', ''PHE'', ''PRO'', ''SER'', ''THR'',
     ''TRP'', ''TYR'', ''VAL'']"

text \<open>\<open>ProteinSelect.accept_atom\<close>; \<open>startswith("H_")\<close> compares the first two characters.\<close>

definition accept_atom :: "atom \<Rightarrow> bool" where
  "accept_atom a =
     (let residue = atom_parent a; rid = res_id residue in
      if fst rid = '' '' then
        (if res_name residue \<in> set standard_aa then True
         else if res_name residue = ''CYSP''
           then atom_name a \<in> set [''N'', ''CA'', ''C'', ''O'', ''CB'', ''SG'']
         else False)
      else if take 2 (fst rid) = ''H_''
        then res_name residue = ''ZN'' \<and> atom_name a = ''ZN''
      else False)"

section \<open>compute\_rmsd.py: regions\<close>

text \<open>
  The test of line 56, \<open>any(start <= resnum <= end for start,end in regs)\<close>: the
  generator is consumed from the left and \<open>any\<close> stops at the first true element.
\<close>

fun in_regions :: "(int \<times> int) list \<Rightarrow> int \<Rightarrow> bool" where
  "in_regions [] resnum = False"
| "in_regions ((start, end) # regs) resnum =
     (if start \<le> resnum \<and> resnum \<le> end then True else in_regions regs resnum)"

section \<open>compute\_rmsd.py: atom groups\<close>

text \<open>
  \<open>atom_groups\<close> fills a dict whose keys are, in insertion order, the five names below;
  every later lookup uses one of them. The dict is a function from the key to its list,
  and \<open>group_names\<close> is its iteration order. \<open>is_aa\<close> stands for Biopython's
  \<open>is_aa(res, standard=True)\<close> and is a parameter.
\<close>

type_synonym groups = "string \<Rightarrow> atom list"

definition group_names :: "string list" where
  "group_names = [''all'', ''backbone'', ''loop'', ''ec'', ''ic'']"

definition resnum_of :: "'a residue_hdr_scheme \<Rightarrow> int" where
  \<comment> \<open>\<open>get_id()[1]\<close>\<close>
  "resnum_of r = fst (snd (res_id r))"

definition group_append :: "groups \<Rightarrow> string \<Rightarrow> atom \<Rightarrow> groups" where
  \<comment> \<open>\<open>groups[name].append(atom)\<close>\<close>
  "group_append g name a = g(name := g name @ [a])"

definition region_step :: "int \<Rightarrow> atom \<Rightarrow> groups \<Rightarrow> string \<times> (int \<times> int) list \<Rightarrow> groups" where
  \<comment> \<open>lines 56 and 57, the body of the loop over the three named region lists\<close>
  "region_step resnum a g nr =
     (if in_regions (snd nr) resnum then group_append g (fst nr) a else g)"

definition atom_step ::
  "(int \<times> int) list \<Rightarrow> (int \<times> int) list \<Rightarrow> (int \<times> int) list \<Rightarrow> int \<Rightarrow> groups \<Rightarrow> atom \<Rightarrow> groups" where
  \<comment> \<open>lines 51 to 57, the body of the loop over the atoms of one residue\<close>
  "atom_step loop_regs ec_regs ic_regs resnum g a =
     (let g1 = group_append g ''all'' a;
          g2 = (if atom_name a \<in> set [''N'', ''CA'', ''C'']
                then group_append g1 ''backbone'' a else g1)
      in foldl (region_step resnum a) g2
           [(''loop'', loop_regs), (''ec'', ec_regs), (''ic'', ic_regs)])"

definition res_step ::
  "(residue \<Rightarrow> bool) \<Rightarrow> (int \<times> int) list \<Rightarrow> (int \<times> int) list \<Rightarrow> (int \<times> int) list
     \<Rightarrow> groups \<Rightarrow> residue \<Rightarrow> groups" where
  \<comment> \<open>lines 47 to 57, the body of the loop over the residues\<close>
  "res_step is_aa loop_regs ec_regs ic_regs g res =
     (if \<not> is_aa res then g
      else foldl (atom_step loop_regs ec_regs ic_regs (resnum_of res)) g (res_atoms res))"

definition atom_groups ::
  "(residue \<Rightarrow> bool) \<Rightarrow> chain \<Rightarrow> (int \<times> int) list \<Rightarrow> (int \<times> int) list \<Rightarrow> (int \<times> int) list
     \<Rightarrow> groups" where
  "atom_groups is_aa chain loop_regs ec_regs ic_regs =
     foldl (res_step is_aa loop_regs ec_regs ic_regs) (\<lambda>k. []) chain"

definition get_atoms :: "chain \<Rightarrow> atom list" where
  \<comment> \<open>\<open>chain.get_atoms()\<close>: the atoms of every residue, standard or not, in chain order\<close>
  "get_atoms chain = concat (map res_atoms chain)"

text \<open>
  A chain as the parser builds it holds every atom object once: the atoms' addresses are
  pairwise different.
\<close>

definition wf_chain :: "chain \<Rightarrow> bool" where
  "wf_chain chain = distinct (map atom_addr (get_atoms chain))"

text \<open>The membership condition of one atom for one group, used to describe the result.\<close>

definition selects ::
  "(int \<times> int) list \<Rightarrow> (int \<times> int) list \<Rightarrow> (int \<times> int) list \<Rightarrow> string \<Rightarrow> int \<Rightarrow> atom \<Rightarrow> bool" where
  "selects loop_regs ec_regs ic_regs k resnum a =
     (k = ''all''
      \<or> k = ''backbone'' \<and> atom_name a \<in> {''N'', ''CA'', ''C''}
      \<or> k = ''loop'' \<and> in_regions loop_regs resnum
      \<or> k = ''ec'' \<and> in_regions ec_regs resnum
      \<or> k = ''ic'' \<and> in_regions ic_regs resnum)"

definition group_of_residue ::
  "(residue \<Rightarrow> bool) \<Rightarrow> (int \<times> int) list \<Rightarrow> (int \<times> int) list \<Rightarrow> (int \<times> int) list \<Rightarrow> string
     \<Rightarrow> residue \<Rightarrow> atom list" where
  "group_of_residue is_aa loop_regs ec_regs ic_regs k res =
     (if is_aa res
      then filter (selects loop_regs ec_regs ic_regs k (resnum_of res)) (res_atoms res)
      else [])"

section \<open>compute\_rmsd.py: region specifications\<close>

text \<open>
  \<open>str.split(sep)\<close> for a separator of one character: the string is cut at every
  occurrence, empty pieces are kept, and the result is never empty.
\<close>

fun split_on :: "char \<Rightarrow> string \<Rightarrow> string list" where
  "split_on c [] = [[]]"
| "split_on c (x # xs) =
     (if x = c then [] # split_on c xs
      else (case split_on c xs of [] \<Rightarrow> [[x]] | p # ps \<Rightarrow> (x # p) # ps))"

text \<open>
  Lines 32 and 33 for one piece. The unpacking \<open>start,end = part.split('-')\<close> raises
  ValueError unless the split has exactly two pieces; \<open>py_int\<close> stands for Python's
  built-in \<open>int\<close> on a string (\<open>None\<close> where it raises ValueError) and is a parameter.
\<close>

definition parse_part :: "(string \<Rightarrow> int option) \<Rightarrow> string \<Rightarrow> error + (int \<times> int)" where
  "parse_part py_int part =
     (case split_on (CHR ''-'') part of
        [start, end] \<Rightarrow>
          (case py_int start of
             None \<Rightarrow> Inl ValueError
           | Some s \<Rightarrow> (case py_int end of None \<Rightarrow> Inl ValueError | Some e \<Rightarrow> Inr (s, e)))
      | _ \<Rightarrow> Inl ValueError)"

fun parse_parts ::
  "(string \<Rightarrow> int option) \<Rightarrow> string list \<Rightarrow> (int \<times> int) list \<Rightarrow> error + (int \<times> int) list" where
  "parse_parts py_int [] regions = Inr regions"
| "parse_parts py_int (part # parts) regions =
     (case parse_part py_int part of
        Inl e \<Rightarrow> Inl e
      | Inr p \<Rightarrow> parse_parts py_int parts (regions @ [p]))"

definition parse_ranges :: "(string \<Rightarrow> int option) \<Rightarrow> string \<Rightarrow> error + (int \<times> int) list" where
  "parse_ranges py_int rangestr = parse_parts py_int (split_on (CHR '','') rangestr) []"

text \<open>
  The shape the specification asks of a token: exactly one hyphen, with an integer on
  each side of it; and the pair such a token denotes.
\<close>

definition left_of_hyphen :: "string \<Rightarrow> string" where
  "left_of_hyphen tok = takeWhile (\<lambda>c. c \<noteq> CHR ''-'') tok"

definition right_of_hyphen :: "string \<Rightarrow> string" where
  "right_of_hyphen tok = drop 1 (dropWhile (\<lambda>c. c \<noteq> CHR ''-'') tok)"

definition well_formed_token :: "(string \<Rightarrow> int option) \<Rightarrow> string \<Rightarrow> bool" where
  "well_formed_token py_int tok =
     (count_list tok (CHR ''-'') = 1
      \<and> py_int (left_of_hyphen tok) \<noteq> None \<and> py_int (right_of_hyphen tok) \<noteq> None)"

definition token_pair :: "(string \<Rightarrow> int option) \<Rightarrow> string \<Rightarrow> int \<times> int" where
  "token_pair py_int tok =
     (the (py_int (left_of_hyphen tok)), the (py_int (right_of_hyphen tok)))"

text \<open>
  An instance of \<open>py_int\<close> for the examples: a non-empty run of ASCII digits, read in
  base ten. (Python's \<open>int\<close> accepts more: a sign, surrounding blanks, underscores.)
\<close>

fun digits_value :: "string \<Rightarrow> nat \<Rightarrow> nat option" where
  "digits_value [] acc = Some acc"
| "digits_value (c # cs) acc =
     (if 48 \<le> (of_char c :: nat) \<and> (of_char c :: nat) \<le> 57
      then digits_value cs (10 * acc + (of_char c - 48)) else None)"

definition int_of_digits :: "string \<Rightarrow> int option" where
  "int_of_digits s = (if s = [] then None else map_option int (digits_value s 0))"

section \<open>compute\_rmsd.py: matching, superposition and the report\<close>

text \<open>
  The correspondence key of an atom, \<open>(atom.get_parent().get_id()[1], atom.get_name())\<close>.
\<close>

type_synonym key = "int \<times> string"

definition atom_key :: "atom \<Rightarrow> key" where
  "atom_key a = (resnum_of (atom_parent a), atom_name a)"

text \<open>
  The dict comprehensions of lines 110 to 113. A Python dict is an association list in
  insertion order; storing under a key that is present replaces the value in place.
\<close>

definition build_map :: "atom list \<Rightarrow> (key \<times> atom) list" where
  "build_map atoms = foldl (\<lambda>d a. AList.update (atom_key a) a d) [] atoms"

text \<open>
  Line 116, \<open>set(ref_map) & set(cv_map)\<close>. The result is a Python set; the order in which
  it is iterated is that of CPython's hash table, which the program does not choose.
  \<open>iter\<close> is this order: it maps the elements of the set to the list in which an
  iteration yields them, and is a parameter. The set is not changed after line 116, so
  the iterations of lines 127 and 128 both yield this one list.
\<close>

definition shared_keys :: "(key list \<Rightarrow> key list) \<Rightarrow> (key \<times> atom) list \<Rightarrow> (key \<times> atom) list \<Rightarrow> key list" where
  "shared_keys iter ref_map cv_map =
     iter (filter (\<lambda>k. k \<in> fst ` set cv_map) (map fst ref_map))"

text \<open>An iteration yields every element of the set once.\<close>

definition iter_ok :: "(key list \<Rightarrow> key list) \<Rightarrow> bool" where
  "iter_ok iter = (\<forall>ks. mset (iter ks) = mset ks)"

text \<open>\<open>[ m[k] for k in keys ]\<close>; a key that is not in the dict raises KeyError.\<close>

definition getitems :: "(key \<times> atom) list \<Rightarrow> key list \<Rightarrow> error + atom list" where
  "getitems m ks =
     (case those (map (map_of m) ks) of None \<Rightarrow> Inl KeyError | Some as \<Rightarrow> Inr as)"

text \<open>
  Biopython's \<open>Superimposer\<close> is a parameter, in two parts. \<open>fit fixed moving\<close> is
  \<open>set_atoms\<close> on the coordinates the two atom lists have at the time of the call: it
  raises, or returns the transform (\<open>rotran\<close>) and \<open>rms\<close>. \<open>transform rt c\<close> is what
  \<open>atom.transform(rot, tran)\<close> makes of the coordinate \<open>c\<close>. \<open>apply_transform\<close> is
  \<open>Superimposer.apply\<close>: it transforms the listed atoms one after the other, in place.
\<close>

definition coords_of :: "(nat \<Rightarrow> 'c) \<Rightarrow> atom list \<Rightarrow> 'c list" where
  "coords_of heap atoms = map (\<lambda>a. heap (atom_addr a)) atoms"

definition apply_transform :: "('t \<Rightarrow> 'c \<Rightarrow> 'c) \<Rightarrow> 't \<Rightarrow> atom list \<Rightarrow> (nat \<Rightarrow> 'c) \<Rightarrow> (nat \<Rightarrow> 'c)" where
  "apply_transform transform rt atoms heap =
     foldl (\<lambda>h a. h(atom_addr a := transform rt (h (atom_addr a)))) heap atoms"

text \<open>
  The body of the loop of lines 108 to 130, on the state it changes: the heap of
  coordinates and the dict \<open>results\<close>. (The lists of lines 122 and 123 are never used.)
\<close>

type_synonym 'c run_state = "(nat \<Rightarrow> 'c) \<times> (string \<times> real option) list"

definition group_step ::
  "(key list \<Rightarrow> key list) \<Rightarrow> ('c list \<Rightarrow> 'c list \<Rightarrow> error + ('t \<times> real)) \<Rightarrow> ('t \<Rightarrow> 'c \<Rightarrow> 'c)
     \<Rightarrow> groups \<Rightarrow> groups \<Rightarrow> chain \<Rightarrow> 'c run_state \<Rightarrow> string \<Rightarrow> error + 'c run_state" where
  "group_step iter fit transform ref_atoms cv_atoms cv_chain st grp =
     (let heap = fst st; results = snd st;
          ref_map = build_map (ref_atoms grp);
          cv_map = build_map (cv_atoms grp);
          keys = shared_keys iter ref_map cv_map
      in if keys = [] then Inr (heap, AList.update grp None results)
         else
           (case getitems ref_map keys of
              Inl e \<Rightarrow> Inl e
            | Inr fixed \<Rightarrow>
               (case getitems cv_map keys of
                  Inl e \<Rightarrow> Inl e
                | Inr moving \<Rightarrow>
                   (case fit (coords_of heap fixed) (coords_of heap moving) of
                      Inl e \<Rightarrow> Inl e
                    | Inr (rt, rms) \<Rightarrow>
                        Inr (apply_transform transform rt (get_atoms cv_chain) heap,
                             AList.update grp (Some rms) results)))))"

fun main_loop ::
  "(key list \<Rightarrow> key list) \<Rightarrow> ('c list \<Rightarrow> 'c list \<Rightarrow> error + ('t \<times> real)) \<Rightarrow> ('t \<Rightarrow> 'c \<Rightarrow> 'c)
     \<Rightarrow> groups \<Rightarrow> groups \<Rightarrow> chain \<Rightarrow> string list \<Rightarrow> 'c run_state \<Rightarrow> error + 'c run_state" where
  "main_loop iter fit transform ref_atoms cv_atoms cv_chain [] st = Inr st"
| "main_loop iter fit transform ref_atoms cv_atoms cv_chain (grp # grps) st =
     (case group_step iter fit transform ref_atoms cv_atoms cv_chain st grp of
        Inl e \<Rightarrow> Inl e
      | Inr st' \<Rightarrow> main_loop iter fit transform ref_atoms cv_atoms cv_chain grps st')"

text \<open>
  The format \<open>f"{rms:.3f}"\<close>, on real numbers: the value is rounded to a multiple of
  one thousandth, a tie going to the even multiple, and written with three decimals.
\<close>

definition round_half_even :: "real \<Rightarrow> int" where
  "round_half_even x =
     (let f = \<lfloor>x\<rfloor>; d = x - of_int f
      in if d < 1 / 2 then f else if 1 / 2 < d then f + 1 else if even f then f else f + 1)"

definition digit_char :: "nat \<Rightarrow> char" where
  \<comment> \<open>only ever applied to a number below ten\<close>
  "digit_char d = ''0123456789'' ! d"

function dec_str :: "nat \<Rightarrow> string" where
  "dec_str n = (if n < 10 then [digit_char n] else dec_str (n div 10) @ [digit_char (n mod 10)])"
  by pat_completeness auto
termination
  by (relation "measure id") auto

definition format_3f :: "real \<Rightarrow> string" where
  "format_3f x =
     (let q = nat (round_half_even (\<bar>x\<bar> * 1000))
      in (if x < 0 then ''-'' else []) @ dec_str (q div 1000) @ ''.''
           @ [digit_char (q div 100 mod 10), digit_char (q div 10 mod 10), digit_char (q mod 10)])"

text \<open>Line 137, \<open>len(set(...))\<close> over the keys of the reference atoms of the group.\<close>

definition n_atoms :: "atom list \<Rightarrow> nat" where
  "n_atoms atoms = length (remdups (map atom_key atoms))"

text \<open>Lines 136 to 138: one row per entry of \<open>results\<close>, in its order.\<close>

definition rmsd_cell :: "real option \<Rightarrow> string" where
  \<comment> \<open>\<open>f"{rms:.3f}" if rms is not None else 'NA'\<close>\<close>
  "rmsd_cell rms = (case rms of None \<Rightarrow> ''NA'' | Some r \<Rightarrow> format_3f r)"

definition write_rows :: "groups \<Rightarrow> (string \<times> real option) list \<Rightarrow> (string \<times> nat \<times> string) list" where
  "write_rows ref_atoms results =
     map (\<lambda>(grp, rms). (grp, n_atoms (ref_atoms grp), rmsd_cell rms)) results"

text \<open>
  Steps 4 to 6 of \<open>main\<close>, from the two chains and the parsed regions to the rows written
  after the header; the heap after the loop is returned with them.
\<close>

definition main_report ::
  "(residue \<Rightarrow> bool) \<Rightarrow> (key list \<Rightarrow> key list) \<Rightarrow> ('c list \<Rightarrow> 'c list \<Rightarrow> error + ('t \<times> real))
     \<Rightarrow> ('t \<Rightarrow> 'c \<Rightarrow> 'c) \<Rightarrow> chain \<Rightarrow> chain \<Rightarrow> (int \<times> int) list \<Rightarrow> (int \<times> int) list
     \<Rightarrow> (int \<times> int) list \<Rightarrow> (nat \<Rightarrow> 'c) \<Rightarrow> error + ((nat \<Rightarrow> 'c) \<times> (string \<times> nat \<times> string) list)" where
  "main_report is_aa iter fit transform ref_chain cv_chain loops ec ic heap =
     (let ref_atoms = atom_groups is_aa ref_chain loops ec ic;
          cv_atoms = atom_groups is_aa cv_chain loops ec ic
      in case main_loop iter fit transform ref_atoms cv_atoms cv_chain group_names (heap, []) of
           Inl e \<Rightarrow> Inl e
         | Inr (heap', results) \<Rightarrow> Inr (heap', write_rows ref_atoms results))"

text \<open>The engine does not raise on two lists of the same positive length.\<close>

definition fit_defined :: "('c list \<Rightarrow> 'c list \<Rightarrow> error + ('t \<times> real)) \<Rightarrow> bool" where
  "fit_defined fit =
     (\<forall>fixed moving. length fixed = length moving \<and> fixed \<noteq> [] \<longrightarrow> (\<exists>r. fit fixed moving = Inr r))"

text \<open>The set of keys of a list of atoms.\<close>

definition keys_of :: "atom list \<Rightarrow> key set" where
  "keys_of atoms = atom_key ` set atoms"

text \<open>
  \<open>fixed\<close> and \<open>moving\<close> are atoms of the reference group and of the target group that
  carry, position by position, the same key, and the keys are the shared keys of the two
  groups, each once.
\<close>

definition matched_on_shared :: "atom list \<Rightarrow> atom list \<Rightarrow> atom list \<Rightarrow> atom list \<Rightarrow> bool" where
  "matched_on_shared ref_group cv_group fixed moving =
     (set fixed \<subseteq> set ref_group \<and> set moving \<subseteq> set cv_group
      \<and> map atom_key fixed = map atom_key moving
      \<and> distinct (map atom_key fixed)
      \<and> set (map atom_key fixed) = keys_of ref_group \<inter> keys_of cv_group)"

section \<open>Example data\<close>

text \<open>
  An instance of \<open>is_aa\<close> for the examples: the residue name is one of the twenty
  standard names.
\<close>

definition std_residue :: "residue \<Rightarrow> bool" where
  "std_residue r = (res_name r \<in> set standard_aa)"

text \<open>A residue as the parser builds it: every atom refers back to its residue.\<close>

definition mk_residue :: "residue_hdr \<Rightarrow> (string \<times> nat) list \<Rightarrow> residue" where
  "mk_residue hdr named =
     \<lparr>res_id = res_id hdr, res_name = res_name hdr,
      res_atoms = map (\<lambda>(n, ad). \<lparr>atom_name = n, atom_parent = hdr, atom_addr = ad\<rparr>) named\<rparr>"

text \<open>
  An instance of the engine for the examples, on points with integer coordinates: the
  translation that carries the first moving point onto the first fixed point, with the
  mean of the coordinate-wise absolute residuals in the place of \<open>rms\<close>. It raises when
  the lists differ in length or are empty. It stands for the parameter in the examples only: Biopython's
  engine is a least-squares fit in floating point.
\<close>

type_synonym point = "int \<times> int \<times> int"

fun padd :: "point \<Rightarrow> point \<Rightarrow> point" where
  "padd (a, b, c) (x, y, z) = (a + x, b + y, c + z)"

fun psub :: "point \<Rightarrow> point \<Rightarrow> point" where
  "psub (a, b, c) (x, y, z) = (a - x, b - y, c - z)"

fun pabs :: "point \<Rightarrow> int" where
  "pabs (x, y, z) = \<bar>x\<bar> + \<bar>y\<bar> + \<bar>z\<bar>"

definition ex_translate :: "point \<Rightarrow> point \<Rightarrow> point" where
  "ex_translate t p = padd p t"

definition ex_fit :: "point list \<Rightarrow> point list \<Rightarrow> error + (point \<times> real)" where
  "ex_fit fixed moving =
     (case (fixed, moving) of
        (p # ps, q # qs) \<Rightarrow>
          if length ps = length qs
          then Inr (psub p q,
                 real_of_int (sum_list (map (\<lambda>(f, m). pabs (psub (padd m (psub p q)) f))
                                 (zip fixed moving)))
                   / real (length fixed))
          else Inl FitError
      | _ \<Rightarrow> Inl FitError)"

definition ex_ala :: residue_hdr where
  "ex_ala = \<lparr>res_id = ('' '', 10, '' ''), res_name = ''ALA''\<rparr>"

definition ex_zn :: residue_hdr where
  "ex_zn = \<lparr>res_id = (''H_ZN'', 11, '' ''), res_name = ''ZN''\<rparr>"

definition ex_gly :: "int \<Rightarrow> residue_hdr" where
  "ex_gly n = \<lparr>res_id = ('' '', n, '' ''), res_name = ''GLY''\<rparr>"

definition ex_na :: residue_hdr where
  "ex_na = \<lparr>res_id = (''H_NA'', 14, '' ''), res_name = ''NA''\<rparr>"

definition ex_ref_chain :: chain where
  "ex_ref_chain =
     [mk_residue ex_ala [(''N'', 0), (''CA'', 1), (''C'', 2), (''O'', 3)],
      mk_residue ex_zn [(''ZN'', 4)],
      mk_residue (ex_gly 12) [(''N'', 5), (''CA'', 6)]]"

definition ex_cv_chain :: chain where
  "ex_cv_chain =
     [mk_residue ex_ala [(''N'', 100), (''CA'', 101), (''CB'', 102)],
      mk_residue (ex_gly 13) [(''N'', 103)],
      mk_residue ex_na [(''NA'', 104)]]"

definition ex_heap :: "nat \<Rightarrow> point" where
  "ex_heap a = (int a, 2 * int a, 0)"

section \<open>Properties\<close>

lemma in_regions_set:
  "in_regions regs n \<longleftrightarrow> (\<exists>p \<in> set regs. fst p \<le> n \<and> n \<le> snd p)"
  by (induction regs n rule: in_regions.induct) auto

lemma in_regions_append:
  "in_regions (xs @ ys) n \<longleftrightarrow> in_regions xs n \<or> in_regions ys n"
  by (auto simp: in_regions_set)

text \<open>
  Claim C5. The region test is true exactly when the residue number lies in at least one
  interval of the list, both ends included; the empty list matches nothing, and an
  interval whose start exceeds its end matches nothing, wherever it stands in the list.
\<close>

theorem in_regions_closed_intervals:
  "(in_regions regs n \<longleftrightarrow> (\<exists>(lo, hi) \<in> set regs. lo \<le> n \<and> n \<le> hi))
   \<and> \<not> in_regions [] n
   \<and> (hi < lo \<longrightarrow> \<not> in_regions [(lo, hi)] n
        \<and> in_regions (xs @ (lo, hi) # ys) n = in_regions (xs @ ys) n)"
  by (simp add: in_regions_append) (force simp: in_regions_set)

theorem in_regions_closed_intervals_witness:
  "in_regions [(45, 55), (120, 130)] 55 \<and> in_regions [(45, 55), (120, 130)] 120
   \<and> \<not> in_regions [(45, 55), (120, 130)] 56
   \<and> (5::int) < 9 \<and> \<not> in_regions [(9, 5)] 7
   \<and> in_regions ([(1, 3)] @ (9, 5) # [(6, 8)]) 7 = in_regions ([(1, 3)] @ [(6, 8)]) 7"
  using in_regions_closed_intervals [of "[(45, 55), (120, 130)]" 55]
    in_regions_closed_intervals [of "[]" 7 5 9 "[(1, 3)]" "[(6, 8)]"]
  by simp

text \<open>
  Claim C10. The filter accepts an atom exactly when its residue is ordinary and named as
  one of the twenty standard amino acids, or is ordinary, named CYSP, and the atom is one
  of N, CA, C, O, CB, SG, or is a heteroatom residue named ZN and the atom is named ZN.
  Waters are rejected, and so is every heteroatom that is not such a zinc atom.
\<close>

theorem accept_atom_iff:
  "(accept_atom a \<longleftrightarrow>
      fst (res_id (atom_parent a)) = '' '' \<and> res_name (atom_parent a) \<in> set standard_aa
    \<or> fst (res_id (atom_parent a)) = '' '' \<and> res_name (atom_parent a) = ''CYSP''
        \<and> atom_name a \<in> {''N'', ''CA'', ''C'', ''O'', ''CB'', ''SG''}
    \<or> take 2 (fst (res_id (atom_parent a))) = ''H_'' \<and> res_name (atom_parent a) = ''ZN''
        \<and> atom_name a = ''ZN'')
   \<and> (fst (res_id (atom_parent a)) = ''W'' \<longrightarrow> \<not> accept_atom a)
   \<and> (take 2 (fst (res_id (atom_parent a))) = ''H_''
        \<and> \<not> (res_name (atom_parent a) = ''ZN'' \<and> atom_name a = ''ZN'')
      \<longrightarrow> \<not> accept_atom a)"
  by (auto simp: accept_atom_def Let_def)

theorem accept_atom_iff_witness:
  "\<not> accept_atom \<lparr>atom_name = ''O'',
        atom_parent = \<lparr>res_id = (''W'', 301, '' ''), res_name = ''HOH''\<rparr>, atom_addr = 0\<rparr>
   \<and> \<not> accept_atom \<lparr>atom_name = ''MG'',
        atom_parent = \<lparr>res_id = (''H_MG'', 302, '' ''), res_name = ''MG''\<rparr>, atom_addr = 1\<rparr>
   \<and> accept_atom \<lparr>atom_name = ''ZN'',
        atom_parent = \<lparr>res_id = (''H_ZN'', 303, '' ''), res_name = ''ZN''\<rparr>, atom_addr = 2\<rparr>
   \<and> accept_atom \<lparr>atom_name = ''SG'',
        atom_parent = \<lparr>res_id = ('' '', 12, '' ''), res_name = ''CYSP''\<rparr>, atom_addr = 3\<rparr>
   \<and> \<not> accept_atom \<lparr>atom_name = ''C1'',
        atom_parent = \<lparr>res_id = ('' '', 12, '' ''), res_name = ''CYSP''\<rparr>, atom_addr = 4\<rparr>"
  using accept_atom_iff [of "\<lparr>atom_name = ''O'',
        atom_parent = \<lparr>res_id = (''W'', 301, '' ''), res_name = ''HOH''\<rparr>, atom_addr = 0\<rparr>"]
    accept_atom_iff [of "\<lparr>atom_name = ''MG'',
        atom_parent = \<lparr>res_id = (''H_MG'', 302, '' ''), res_name = ''MG''\<rparr>, atom_addr = 1\<rparr>"]
    accept_atom_iff [of "\<lparr>atom_name = ''ZN'',
        atom_parent = \<lparr>res_id = (''H_ZN'', 303, '' ''), res_name = ''ZN''\<rparr>, atom_addr = 2\<rparr>"]
    accept_atom_iff [of "\<lparr>atom_name = ''SG'',
        atom_parent = \<lparr>res_id = ('' '', 12, '' ''), res_name = ''CYSP''\<rparr>, atom_addr = 3\<rparr>"]
    accept_atom_iff [of "\<lparr>atom_name = ''C1'',
        atom_parent = \<lparr>res_id = ('' '', 12, '' ''), res_name = ''CYSP''\<rparr>, atom_addr = 4\<rparr>"]
  by (simp add: standard_aa_def)

subsection \<open>Region specifications\<close>

lemma split_on_nonempty: "split_on c s \<noteq> []"
  by (induction s) (auto split: list.splits)

lemma split_on_none: "count_list s c = 0 \<Longrightarrow> split_on c s = [s]"
  by (induction s) (auto split: if_splits)

lemma length_split_on: "length (split_on c s) = count_list s c + 1"
  by (induction s) (auto split: list.splits simp: split_on_nonempty)

lemma split_on_no_sep: "t \<in> set (split_on c s) \<Longrightarrow> c \<notin> set t"
  by (induction s arbitrary: t) (auto split: if_splits list.splits)

lemma split_on_two:
  "count_list s c = 1 \<Longrightarrow>
     split_on c s = [takeWhile (\<lambda>x. x \<noteq> c) s, drop 1 (dropWhile (\<lambda>x. x \<noteq> c) s)]"
  by (induction s) (auto split: if_splits simp: split_on_none)

lemma parse_part_eq:
  "parse_part py_int tok
     = (if well_formed_token py_int tok then Inr (token_pair py_int tok) else Inl ValueError)"
proof (cases "count_list tok (CHR ''-'') = 1")
  case True
  then show ?thesis
    by (auto simp: parse_part_def well_formed_token_def token_pair_def left_of_hyphen_def
        right_of_hyphen_def split_on_two split: option.splits)
next
  case False
  then have "length (split_on (CHR ''-'') tok) \<noteq> 2"
    by (simp add: length_split_on)
  then have "parse_part py_int tok = Inl ValueError"
    by (auto simp: parse_part_def split: list.splits)
  with False show ?thesis
    by (simp add: well_formed_token_def)
qed

lemma parse_parts_eq:
  "parse_parts py_int toks acc
     = (if \<forall>t \<in> set toks. well_formed_token py_int t
        then Inr (acc @ map (token_pair py_int) toks) else Inl ValueError)"
  by (induction toks arbitrary: acc) (auto simp: parse_part_eq)

text \<open>
  Claim C6. The tokens are the pieces of the string between its commas. Parsing raises
  (ValueError, the program's format error) exactly when some token is not of the shape
  integer, one hyphen, integer, the two sides being what stands before and after the
  hyphen; otherwise it returns the pairs of the tokens in their order. A token with a
  second hyphen, such as one with a negative bound, is of the wrong shape.
\<close>

theorem parse_ranges_format:
  "(parse_ranges py_int s = Inl ValueError
      \<longleftrightarrow> (\<exists>tok \<in> set (split_on (CHR '','') s). \<not> well_formed_token py_int tok))
   \<and> ((\<forall>tok \<in> set (split_on (CHR '','') s). well_formed_token py_int tok)
      \<longrightarrow> parse_ranges py_int s = Inr (map (token_pair py_int) (split_on (CHR '','') s)))
   \<and> (\<forall>e. parse_ranges py_int s = Inl e \<longrightarrow> e = ValueError)"
  by (simp add: parse_ranges_def parse_parts_eq)

theorem parse_ranges_format_witness:
  "split_on (CHR '','') ''45-55,120-130'' = [''45-55'', ''120-130'']
   \<and> well_formed_token int_of_digits ''45-55''
   \<and> well_formed_token int_of_digits ''120-130''
   \<and> parse_ranges int_of_digits ''45-55,120-130'' = Inr [(45, 55), (120, 130)]
   \<and> \<not> well_formed_token int_of_digits ''7''
   \<and> parse_ranges int_of_digits ''45-55,7'' = Inl ValueError
   \<and> parse_ranges int_of_digits ''45-5x'' = Inl ValueError
   \<and> parse_ranges int_of_digits ''-5-10'' = Inl ValueError
   \<and> parse_ranges int_of_digits [] = Inl ValueError"
  using parse_ranges_format [of int_of_digits "''45-55,120-130''"]
    parse_ranges_format [of int_of_digits "''45-55,7''"]
    parse_ranges_format [of int_of_digits "''45-5x''"]
    parse_ranges_format [of int_of_digits "''-5-10''"]
    parse_ranges_format [of int_of_digits "[]"]
  by (simp add: well_formed_token_def token_pair_def left_of_hyphen_def right_of_hyphen_def
      int_of_digits_def)

subsection \<open>Atom groups\<close>

lemma atom_step_at:
  "atom_step l e i n g a k = g k @ (if selects l e i k n a then [a] else [])"
  by (simp add: atom_step_def region_step_def group_append_def selects_def Let_def)

lemma foldl_atom_step_at:
  "foldl (atom_step l e i n) g as k = g k @ filter (selects l e i k n) as"
  by (induction as arbitrary: g) (simp_all add: atom_step_at)

lemma res_step_at:
  "res_step is_aa l e i g r k = g k @ group_of_residue is_aa l e i k r"
  by (simp add: res_step_def group_of_residue_def foldl_atom_step_at)

lemma foldl_res_step_at:
  "foldl (res_step is_aa l e i) g chain k
     = g k @ concat (map (group_of_residue is_aa l e i k) chain)"
  by (induction chain arbitrary: g) (simp_all add: res_step_at)

lemma atom_groups_at:
  "atom_groups is_aa chain l e i k = concat (map (group_of_residue is_aa l e i k) chain)"
  by (simp add: atom_groups_def foldl_res_step_at)

lemma in_atom_groups_iff:
  "a \<in> set (atom_groups is_aa chain l e i k) \<longleftrightarrow>
     (\<exists>r \<in> set chain. is_aa r \<and> a \<in> set (res_atoms r) \<and> selects l e i k (resnum_of r) a)"
  by (auto simp: atom_groups_at group_of_residue_def split: if_splits)

lemma atom_groups_subset_chain:
  "set (atom_groups is_aa chain l e i k) \<subseteq> set (get_atoms chain)"
  by (auto simp: in_atom_groups_iff get_atoms_def)

lemma atom_groups_other_key:
  "k \<notin> set group_names \<Longrightarrow> atom_groups is_aa chain l e i k = []"
  by (auto simp: atom_groups_at group_of_residue_def selects_def group_names_def)

lemma selects_all: "selects l e i ''all'' n = (\<lambda>a. True)"
  by (rule ext) (simp add: selects_def)

lemma selects_backbone:
  "selects l e i ''backbone'' n
     = (\<lambda>a. atom_name a = ''N'' \<or> atom_name a = ''CA'' \<or> atom_name a = ''C'')"
  by (rule ext) (simp add: selects_def)

lemma owner_unique_aux:
  "distinct (map atom_addr (concat (map res_atoms chain))) \<Longrightarrow> r \<in> set chain
     \<Longrightarrow> r' \<in> set chain \<Longrightarrow> a \<in> set (res_atoms r) \<Longrightarrow> a \<in> set (res_atoms r') \<Longrightarrow> r = r'"
proof (induction chain)
  case Nil
  then show ?case by simp
next
  case (Cons x xs)
  then show ?case by (cases "r = x"; cases "r' = x") (auto 4 3)
qed

lemma wf_chain_owner_unique:
  "wf_chain chain \<Longrightarrow> r \<in> set chain \<Longrightarrow> r' \<in> set chain
     \<Longrightarrow> a \<in> set (res_atoms r) \<Longrightarrow> a \<in> set (res_atoms r') \<Longrightarrow> r = r'"
  unfolding wf_chain_def get_atoms_def by (rule owner_unique_aux)

lemma atom_groups_filter_std:
  "atom_groups is_aa (filter is_aa chain) l e i = atom_groups is_aa chain l e i"
proof
  fix k
  show "atom_groups is_aa (filter is_aa chain) l e i k = atom_groups is_aa chain l e i k"
    unfolding atom_groups_at by (induction chain) (simp_all add: group_of_residue_def)
qed

text \<open>
  Claim C7. An atom is in the backbone group exactly when a standard residue of the chain
  owns it and its name is N, CA or C; the backbone list is the list \<open>all\<close> restricted to
  these names, in the same order. An atom named O of a standard residue is in \<open>all\<close> and
  not in \<open>backbone\<close>.
\<close>

theorem backbone_iff:
  "(a \<in> set (atom_groups is_aa chain l e i ''backbone'') \<longleftrightarrow>
      (\<exists>r \<in> set chain. is_aa r \<and> a \<in> set (res_atoms r)
         \<and> (atom_name a = ''N'' \<or> atom_name a = ''CA'' \<or> atom_name a = ''C'')))
   \<and> atom_groups is_aa chain l e i ''backbone''
      = filter (\<lambda>a. atom_name a = ''N'' \<or> atom_name a = ''CA'' \<or> atom_name a = ''C'')
          (atom_groups is_aa chain l e i ''all'')
   \<and> (r \<in> set chain \<and> is_aa r \<and> b \<in> set (res_atoms r) \<and> atom_name b = ''O''
        \<longrightarrow> b \<in> set (atom_groups is_aa chain l e i ''all'')
          \<and> b \<notin> set (atom_groups is_aa chain l e i ''backbone''))"
proof (intro conjI)
  show "a \<in> set (atom_groups is_aa chain l e i ''backbone'') \<longleftrightarrow>
      (\<exists>r \<in> set chain. is_aa r \<and> a \<in> set (res_atoms r)
         \<and> (atom_name a = ''N'' \<or> atom_name a = ''CA'' \<or> atom_name a = ''C''))"
    by (simp add: in_atom_groups_iff selects_def)
  show "atom_groups is_aa chain l e i ''backbone''
      = filter (\<lambda>a. atom_name a = ''N'' \<or> atom_name a = ''CA'' \<or> atom_name a = ''C'')
          (atom_groups is_aa chain l e i ''all'')"
    unfolding atom_groups_at
    by (induction chain) (simp_all add: group_of_residue_def selects_all selects_backbone)
  show "r \<in> set chain \<and> is_aa r \<and> b \<in> set (res_atoms r) \<and> atom_name b = ''O''
        \<longrightarrow> b \<in> set (atom_groups is_aa chain l e i ''all'')
          \<and> b \<notin> set (atom_groups is_aa chain l e i ''backbone'')"
    by (auto simp: in_atom_groups_iff selects_def)
qed

theorem backbone_iff_witness:
  "mk_residue ex_ala [(''N'', 0), (''CA'', 1), (''C'', 2), (''O'', 3)] \<in> set ex_ref_chain
   \<and> std_residue (mk_residue ex_ala [(''N'', 0), (''CA'', 1), (''C'', 2), (''O'', 3)])
   \<and> \<lparr>atom_name = ''O'', atom_parent = ex_ala, atom_addr = 3\<rparr>
        \<in> set (res_atoms (mk_residue ex_ala [(''N'', 0), (''CA'', 1), (''C'', 2), (''O'', 3)]))
   \<and> \<lparr>atom_name = ''O'', atom_parent = ex_ala, atom_addr = 3\<rparr>
        \<in> set (atom_groups std_residue ex_ref_chain [(10, 12)] [(12, 13)] [] ''all'')
   \<and> \<lparr>atom_name = ''O'', atom_parent = ex_ala, atom_addr = 3\<rparr>
        \<notin> set (atom_groups std_residue ex_ref_chain [(10, 12)] [(12, 13)] [] ''backbone'')"
  using backbone_iff [of _ std_residue ex_ref_chain "[(10, 12)]" "[(12, 13)]" "[]"
      "mk_residue ex_ala [(''N'', 0), (''CA'', 1), (''C'', 2), (''O'', 3)]"
      "\<lparr>atom_name = ''O'', atom_parent = ex_ala, atom_addr = 3\<rparr>"]
  by (simp add: ex_ref_chain_def mk_residue_def std_residue_def standard_aa_def ex_ala_def)

text \<open>
  Claim C8. In a chain that holds every atom object once, an atom of a residue that is not
  a standard amino acid is in none of the groups, \<open>all\<close> included; without any
  assumption, dropping the non-standard residues from the chain changes no group. An
  atom of a standard residue is in each of \<open>loop\<close>, \<open>ec\<close> and \<open>ic\<close> whose region list
  contains the residue number, also in several of them at once.
\<close>

theorem atom_groups_standard_only:
  "(wf_chain chain \<and> r \<in> set chain \<and> \<not> is_aa r \<and> a \<in> set (res_atoms r)
      \<longrightarrow> (\<forall>k. a \<notin> set (atom_groups is_aa chain l e i k)))
   \<and> atom_groups is_aa (filter is_aa chain) l e i = atom_groups is_aa chain l e i
   \<and> (\<forall>k. \<forall>b \<in> set (atom_groups is_aa chain l e i k).
         \<exists>r' \<in> set chain. is_aa r' \<and> b \<in> set (res_atoms r'))
   \<and> (r' \<in> set chain \<and> is_aa r' \<and> b \<in> set (res_atoms r')
      \<longrightarrow> b \<in> set (atom_groups is_aa chain l e i ''all'')
        \<and> (in_regions l (resnum_of r') \<longrightarrow> b \<in> set (atom_groups is_aa chain l e i ''loop''))
        \<and> (in_regions e (resnum_of r') \<longrightarrow> b \<in> set (atom_groups is_aa chain l e i ''ec''))
        \<and> (in_regions i (resnum_of r') \<longrightarrow> b \<in> set (atom_groups is_aa chain l e i ''ic'')))"
proof (intro conjI)
  show "wf_chain chain \<and> r \<in> set chain \<and> \<not> is_aa r \<and> a \<in> set (res_atoms r)
      \<longrightarrow> (\<forall>k. a \<notin> set (atom_groups is_aa chain l e i k))"
    using wf_chain_owner_unique [of chain r _ a] by (auto simp: in_atom_groups_iff)
  show "atom_groups is_aa (filter is_aa chain) l e i = atom_groups is_aa chain l e i"
    by (rule atom_groups_filter_std)
  show "\<forall>k. \<forall>b \<in> set (atom_groups is_aa chain l e i k).
         \<exists>r' \<in> set chain. is_aa r' \<and> b \<in> set (res_atoms r')"
    by (auto simp: in_atom_groups_iff)
  show "r' \<in> set chain \<and> is_aa r' \<and> b \<in> set (res_atoms r')
      \<longrightarrow> b \<in> set (atom_groups is_aa chain l e i ''all'')
        \<and> (in_regions l (resnum_of r') \<longrightarrow> b \<in> set (atom_groups is_aa chain l e i ''loop''))
        \<and> (in_regions e (resnum_of r') \<longrightarrow> b \<in> set (atom_groups is_aa chain l e i ''ec''))
        \<and> (in_regions i (resnum_of r') \<longrightarrow> b \<in> set (atom_groups is_aa chain l e i ''ic''))"
    by (auto simp: in_atom_groups_iff selects_def)
qed

theorem atom_groups_standard_only_witness:
  "wf_chain ex_ref_chain
   \<and> mk_residue ex_zn [(''ZN'', 4)] \<in> set ex_ref_chain
   \<and> \<not> std_residue (mk_residue ex_zn [(''ZN'', 4)])
   \<and> (\<forall>k. \<lparr>atom_name = ''ZN'', atom_parent = ex_zn, atom_addr = 4\<rparr>
          \<notin> set (atom_groups std_residue ex_ref_chain [(10, 12)] [(12, 13)] [] k))
   \<and> mk_residue (ex_gly 12) [(''N'', 5), (''CA'', 6)] \<in> set ex_ref_chain
   \<and> std_residue (mk_residue (ex_gly 12) [(''N'', 5), (''CA'', 6)])
   \<and> in_regions [(10, 12)] (resnum_of (mk_residue (ex_gly 12) [(''N'', 5), (''CA'', 6)]))
   \<and> in_regions [(12, 13)] (resnum_of (mk_residue (ex_gly 12) [(''N'', 5), (''CA'', 6)]))
   \<and> \<lparr>atom_name = ''CA'', atom_parent = ex_gly 12, atom_addr = 6\<rparr>
        \<in> set (atom_groups std_residue ex_ref_chain [(10, 12)] [(12, 13)] [] ''loop'')
   \<and> \<lparr>atom_name = ''CA'', atom_parent = ex_gly 12, atom_addr = 6\<rparr>
        \<in> set (atom_groups std_residue ex_ref_chain [(10, 12)] [(12, 13)] [] ''ec'')"
  using atom_groups_standard_only [of ex_ref_chain "mk_residue ex_zn [(''ZN'', 4)]" std_residue
      "\<lparr>atom_name = ''ZN'', atom_parent = ex_zn, atom_addr = 4\<rparr>"
      "[(10, 12)]" "[(12, 13)]" "[]" "mk_residue (ex_gly 12) [(''N'', 5), (''CA'', 6)]"
      "\<lparr>atom_name = ''CA'', atom_parent = ex_gly 12, atom_addr = 6\<rparr>"]
  by (simp add: wf_chain_def get_atoms_def resnum_of_def ex_ref_chain_def mk_residue_def
      std_residue_def standard_aa_def ex_ala_def ex_zn_def ex_gly_def)

subsection \<open>Matching atoms by key\<close>

lemma build_map_snoc: "build_map (as @ [a]) = AList.update (atom_key a) a (build_map as)"
  by (simp add: build_map_def)

lemma build_map_keys: "fst ` set (build_map as) = keys_of as"
  by (induction as rule: rev_induct) (auto simp: build_map_snoc dom_update keys_of_def build_map_def)

lemma build_map_distinct: "distinct (map fst (build_map as))"
  by (induction as rule: rev_induct) (simp_all add: build_map_snoc distinct_update, simp add: build_map_def)

lemma build_map_lookup:
  "map_of (build_map as) k = Some a \<Longrightarrow> a \<in> set as \<and> atom_key a = k"
  by (induction as rule: rev_induct)
     (auto simp: build_map_snoc update_conv' build_map_def split: if_splits)

lemma shared_keys_set:
  "iter_ok iter \<Longrightarrow>
     set (shared_keys iter (build_map ras) (build_map cas)) = keys_of ras \<inter> keys_of cas"
proof -
  assume "iter_ok iter"
  then have "set (iter ks) = set ks" for ks
    unfolding iter_ok_def by (metis mset_eq_setD)
  then show ?thesis
    using build_map_keys by (auto simp: shared_keys_def)
qed

lemma shared_keys_distinct:
  "iter_ok iter \<Longrightarrow> distinct (shared_keys iter (build_map ras) (build_map cas))"
proof -
  assume "iter_ok iter"
  then have "distinct (iter ks) = distinct ks" for ks
    unfolding iter_ok_def by (metis mset_eq_imp_distinct_iff)
  then show ?thesis
    by (simp add: shared_keys_def build_map_distinct distinct_map_filter)
qed

lemma getitems_ok:
  "set ks \<subseteq> fst ` set m \<Longrightarrow>
     \<exists>as. getitems m ks = Inr as \<and> map (map_of m) ks = map Some as"
proof (induction ks)
  case Nil
  then show ?case by (simp add: getitems_def)
next
  case (Cons k ks)
  then obtain as where as: "getitems m ks = Inr as" "map (map_of m) ks = map Some as"
    by auto
  from Cons.prems obtain a where a: "map_of m k = Some a"
    by (metis list.set_intros(1) subsetD weak_map_of_SomeI map_of_eq_None_iff not_Some_eq)
  from as(1) have "those (map (map_of m) ks) = Some as"
    by (auto simp: getitems_def split: option.splits)
  with a have "getitems m (k # ks) = Inr (a # as)"
    by (simp add: getitems_def)
  with a as(2) show ?case by simp
qed

lemma apply_transform_other:
  "addr \<notin> atom_addr ` set atoms \<Longrightarrow> apply_transform tr rt atoms h addr = h addr"
  by (induction atoms arbitrary: h) (auto simp: apply_transform_def)

lemma apply_transform_at:
  "distinct (map atom_addr atoms) \<Longrightarrow> a \<in> set atoms \<Longrightarrow>
     apply_transform tr rt atoms h (atom_addr a) = tr rt (h (atom_addr a))"
proof (induction atoms arbitrary: h)
  case Nil
  then show ?case by simp
next
  case (Cons x xs)
  have step: "apply_transform tr rt (x # xs) h
      = apply_transform tr rt xs (h(atom_addr x := tr rt (h (atom_addr x))))"
    by (simp add: apply_transform_def)
  show ?case
  proof (cases "atom_addr a = atom_addr x")
    case True
    with Cons.prems have "atom_addr a \<notin> atom_addr ` set xs" by auto
    with True show ?thesis by (simp add: step apply_transform_other)
  next
    case False
    with Cons.prems have "a \<in> set xs" "distinct (map atom_addr xs)" by auto
    with False Cons.IH show ?thesis by (simp add: step)
  qed
qed


lemma looked_up_atoms:
  "map (map_of (build_map xs)) ks = map Some as \<Longrightarrow> map atom_key as = ks \<and> set as \<subseteq> set xs"
proof (induction ks arbitrary: as)
  case Nil
  then show ?case by simp
next
  case (Cons k ks)
  then obtain a as' where as: "as = a # as'" by (cases as) auto
  with Cons.prems have "map_of (build_map xs) k = Some a"
    and "map (map_of (build_map xs)) ks = map Some as'" by auto
  with Cons.IH [of as'] build_map_lookup [of xs k a] as show ?case by simp
qed

lemma matched_lists:
  assumes "iter_ok iter"
  shows "\<exists>fixed moving.
     getitems (build_map ras) (shared_keys iter (build_map ras) (build_map cas)) = Inr fixed
     \<and> getitems (build_map cas) (shared_keys iter (build_map ras) (build_map cas)) = Inr moving
     \<and> map atom_key fixed = shared_keys iter (build_map ras) (build_map cas)
     \<and> map atom_key moving = shared_keys iter (build_map ras) (build_map cas)
     \<and> set fixed \<subseteq> set ras \<and> set moving \<subseteq> set cas"
proof -
  let ?ks = "shared_keys iter (build_map ras) (build_map cas)"
  have ks: "set ?ks = keys_of ras \<inter> keys_of cas"
    using assms by (rule shared_keys_set)
  then have "set ?ks \<subseteq> fst ` set (build_map ras)" "set ?ks \<subseteq> fst ` set (build_map cas)"
    by (simp_all add: build_map_keys)
  then obtain fixed moving where
    f: "getitems (build_map ras) ?ks = Inr fixed" "map (map_of (build_map ras)) ?ks = map Some fixed"
    and m: "getitems (build_map cas) ?ks = Inr moving" "map (map_of (build_map cas)) ?ks = map Some moving"
    using getitems_ok [of ?ks "build_map ras"] getitems_ok [of ?ks "build_map cas"] by blast
  from f(2) have "map atom_key fixed = ?ks \<and> set fixed \<subseteq> set ras"
    by (rule looked_up_atoms)
  moreover from m(2) have "map atom_key moving = ?ks \<and> set moving \<subseteq> set cas"
    by (rule looked_up_atoms)
  ultimately show ?thesis using f(1) m(1) by blast
qed

lemma group_step_eq:
  assumes "iter_ok iter"
  shows "\<exists>fixed moving.
     map atom_key fixed = shared_keys iter (build_map (RA g)) (build_map (CA g))
     \<and> map atom_key moving = shared_keys iter (build_map (RA g)) (build_map (CA g))
     \<and> set fixed \<subseteq> set (RA g) \<and> set moving \<subseteq> set (CA g)
     \<and> (\<forall>h res. group_step iter fit tr RA CA cv (h, res) g =
          (if fixed = [] then Inr (h, AList.update g None res)
           else (case fit (coords_of h fixed) (coords_of h moving) of
                   Inl e \<Rightarrow> Inl e
                 | Inr (rt, rms) \<Rightarrow>
                     Inr (apply_transform tr rt (get_atoms cv) h,
                          AList.update g (Some rms) res))))"
proof -
  let ?ks = "shared_keys iter (build_map (RA g)) (build_map (CA g))"
  from matched_lists [OF assms, of "RA g" "CA g"] obtain fixed moving where
    fm: "getitems (build_map (RA g)) ?ks = Inr fixed" "getitems (build_map (CA g)) ?ks = Inr moving"
      "map atom_key fixed = ?ks" "map atom_key moving = ?ks"
      "set fixed \<subseteq> set (RA g)" "set moving \<subseteq> set (CA g)"
    by blast
  from fm(3) have e: "?ks = [] \<longleftrightarrow> fixed = []" by (metis map_is_Nil_conv)
  have "group_step iter fit tr RA CA cv (h, res) g =
          (if fixed = [] then Inr (h, AList.update g None res)
           else (case fit (coords_of h fixed) (coords_of h moving) of
                   Inl e \<Rightarrow> Inl e
                 | Inr (rt, rms) \<Rightarrow>
                     Inr (apply_transform tr rt (get_atoms cv) h,
                          AList.update g (Some rms) res)))" for h res
    using e by (simp add: group_step_def Let_def fm(1,2))
  with fm(3-6) show ?thesis by blast
qed

lemma update_fresh: "k \<notin> fst ` set al \<Longrightarrow> AList.update k v al = al @ [(k, v)]"
  by (induction al) auto

lemma main_loop_results:
  assumes "\<And>h r g. g \<in> set gs \<Longrightarrow>
      \<exists>h' v. group_step iter fit tr RA CA cv (h, r) g = Inr (h', AList.update g v r) \<and> Q g v"
    and "distinct gs" "set gs \<inter> fst ` set res = {}"
  shows "\<exists>h' vs. main_loop iter fit tr RA CA cv gs (h, res) = Inr (h', res @ zip gs vs)
           \<and> list_all2 Q gs vs"
  using assms
proof (induction gs arbitrary: h res)
  case Nil
  then show ?case by simp
next
  case (Cons g gs)
  from Cons.prems(1) [of g h res] obtain h1 v where
    s: "group_step iter fit tr RA CA cv (h, res) g = Inr (h1, AList.update g v res)" "Q g v"
    by auto
  from Cons.prems(3) have upd: "AList.update g v res = res @ [(g, v)]"
    by (simp add: update_fresh)
  have "\<exists>h' vs. main_loop iter fit tr RA CA cv gs (h1, res @ [(g, v)])
            = Inr (h', (res @ [(g, v)]) @ zip gs vs) \<and> list_all2 Q gs vs"
    using Cons.prems by (intro Cons.IH) auto
  then obtain h' vs where
    r: "main_loop iter fit tr RA CA cv gs (h1, res @ [(g, v)]) = Inr (h', (res @ [(g, v)]) @ zip gs vs)"
      "list_all2 Q gs vs" by blast
  have "main_loop iter fit tr RA CA cv (g # gs) (h, res) = Inr (h', res @ zip (g # gs) (v # vs))"
    using s(1) upd r(1) by simp
  moreover have "list_all2 Q (g # gs) (v # vs)" using s(2) r(2) by simp
  ultimately show ?case by blast
qed

subsection \<open>The example data\<close>

lemma ex_ref_groups:
  "atom_groups std_residue ex_ref_chain [(10, 12)] [(12, 13)] [] ''all''
     = [\<lparr>atom_name = ''N'', atom_parent = ex_ala, atom_addr = 0\<rparr>,
        \<lparr>atom_name = ''CA'', atom_parent = ex_ala, atom_addr = 1\<rparr>,
        \<lparr>atom_name = ''C'', atom_parent = ex_ala, atom_addr = 2\<rparr>,
        \<lparr>atom_name = ''O'', atom_parent = ex_ala, atom_addr = 3\<rparr>,
        \<lparr>atom_name = ''N'', atom_parent = ex_gly 12, atom_addr = 5\<rparr>,
        \<lparr>atom_name = ''CA'', atom_parent = ex_gly 12, atom_addr = 6\<rparr>]"
  "atom_groups std_residue ex_ref_chain [(10, 12)] [(12, 13)] [] ''ec''
     = [\<lparr>atom_name = ''N'', atom_parent = ex_gly 12, atom_addr = 5\<rparr>,
        \<lparr>atom_name = ''CA'', atom_parent = ex_gly 12, atom_addr = 6\<rparr>]"
  by (simp_all add: atom_groups_at group_of_residue_def selects_def resnum_of_def
      ex_ref_chain_def mk_residue_def std_residue_def standard_aa_def ex_ala_def ex_zn_def
      ex_gly_def)

lemma ex_cv_groups:
  "atom_groups std_residue ex_cv_chain [(10, 12)] [(12, 13)] [] ''all''
     = [\<lparr>atom_name = ''N'', atom_parent = ex_ala, atom_addr = 100\<rparr>,
        \<lparr>atom_name = ''CA'', atom_parent = ex_ala, atom_addr = 101\<rparr>,
        \<lparr>atom_name = ''CB'', atom_parent = ex_ala, atom_addr = 102\<rparr>,
        \<lparr>atom_name = ''N'', atom_parent = ex_gly 13, atom_addr = 103\<rparr>]"
  "atom_groups std_residue ex_cv_chain [(10, 12)] [(12, 13)] [] ''ec''
     = [\<lparr>atom_name = ''N'', atom_parent = ex_gly 13, atom_addr = 103\<rparr>]"
  by (simp_all add: atom_groups_at group_of_residue_def selects_def resnum_of_def
      ex_cv_chain_def mk_residue_def std_residue_def standard_aa_def ex_ala_def ex_na_def
      ex_gly_def)

lemma ex_keys:
  "keys_of (atom_groups std_residue ex_ref_chain [(10, 12)] [(12, 13)] [] ''all'')
     \<inter> keys_of (atom_groups std_residue ex_cv_chain [(10, 12)] [(12, 13)] [] ''all'')
   = {(10, ''N''), (10, ''CA'')}"
  "keys_of (atom_groups std_residue ex_ref_chain [(10, 12)] [(12, 13)] [] ''ec'')
     \<inter> keys_of (atom_groups std_residue ex_cv_chain [(10, 12)] [(12, 13)] [] ''ec'')
   = {}"
  by (simp_all add: ex_ref_groups ex_cv_groups keys_of_def atom_key_def resnum_of_def
      ex_ala_def ex_gly_def)

lemma ex_n_atoms:
  "n_atoms (atom_groups std_residue ex_ref_chain [(10, 12)] [(12, 13)] [] ''ec'') = 2"
  by (simp add: ex_ref_groups n_atoms_def atom_key_def resnum_of_def ex_ala_def ex_gly_def)

lemma ex_iter_ok: "iter_ok (\<lambda>ks. ks)"
  by (simp add: iter_ok_def)

lemma rev_iter_ok: "iter_ok rev"
  by (simp add: iter_ok_def)

lemma ex_fit_defined: "fit_defined ex_fit"
  unfolding fit_defined_def
proof (intro allI impI)
  fix fixed moving :: "point list"
  assume a: "length fixed = length moving \<and> fixed \<noteq> []"
  then obtain p ps q qs where "fixed = p # ps" "moving = q # qs" "length ps = length qs"
    by (cases fixed; cases moving) auto
  then have "ex_fit fixed moving
      = Inr (psub p q,
          real_of_int (sum_list (map (\<lambda>(f, m). pabs (psub (padd m (psub p q)) f))
                          (zip fixed moving)))
            / real (length fixed))"
    by (simp add: ex_fit_def)
  then show "\<exists>r. ex_fit fixed moving = Inr r" by (rule exI)
qed

lemma ex_chain_facts:
  "wf_chain ex_cv_chain"
  "atom_addr ` set (get_atoms ex_ref_chain) \<inter> atom_addr ` set (get_atoms ex_cv_chain) = {}"
  "\<lparr>atom_name = ''NA'', atom_parent = ex_na, atom_addr = 104\<rparr> \<in> set (get_atoms ex_cv_chain)"
  "\<lparr>atom_name = ''CB'', atom_parent = ex_ala, atom_addr = 102\<rparr> \<in> set (get_atoms ex_cv_chain)"
  "\<lparr>atom_name = ''ZN'', atom_parent = ex_zn, atom_addr = 4\<rparr> \<in> set (get_atoms ex_ref_chain)"
  by (simp_all add: wf_chain_def get_atoms_def ex_ref_chain_def ex_cv_chain_def mk_residue_def)

lemma ex_matched:
  "shared_keys rev
     (build_map (atom_groups std_residue ex_ref_chain [(10, 12)] [(12, 13)] [] ''all''))
     (build_map (atom_groups std_residue ex_cv_chain [(10, 12)] [(12, 13)] [] ''all''))
   = [(10, ''CA''), (10, ''N'')]"
  "getitems (build_map (atom_groups std_residue ex_ref_chain [(10, 12)] [(12, 13)] [] ''all''))
     [(10, ''CA''), (10, ''N'')]
   = Inr [\<lparr>atom_name = ''CA'', atom_parent = ex_ala, atom_addr = 1\<rparr>,
          \<lparr>atom_name = ''N'', atom_parent = ex_ala, atom_addr = 0\<rparr>]"
  "getitems (build_map (atom_groups std_residue ex_cv_chain [(10, 12)] [(12, 13)] [] ''all''))
     [(10, ''CA''), (10, ''N'')]
   = Inr [\<lparr>atom_name = ''CA'', atom_parent = ex_ala, atom_addr = 101\<rparr>,
          \<lparr>atom_name = ''N'', atom_parent = ex_ala, atom_addr = 100\<rparr>]"
  by (simp_all add: ex_ref_groups ex_cv_groups build_map_def shared_keys_def getitems_def
      atom_key_def resnum_of_def ex_ala_def ex_gly_def)

lemma ex_fit_value:
  "ex_fit (coords_of ex_heap [\<lparr>atom_name = ''CA'', atom_parent = ex_ala, atom_addr = 1\<rparr>,
                               \<lparr>atom_name = ''N'', atom_parent = ex_ala, atom_addr = 0\<rparr>])
          (coords_of ex_heap [\<lparr>atom_name = ''CA'', atom_parent = ex_ala, atom_addr = 101\<rparr>,
                               \<lparr>atom_name = ''N'', atom_parent = ex_ala, atom_addr = 100\<rparr>])
   = Inr ((- 100, - 200, 0), 0)"
  by (simp add: ex_fit_def coords_of_def ex_heap_def)

subsection \<open>The loop over the groups and the report\<close>

lemma step_empty:
  assumes "iter_ok iter" "keys_of (RA g) \<inter> keys_of (CA g) = {}"
  shows "group_step iter fit tr RA CA cv (h, r) g = Inr (h, AList.update g None r)"
proof -
  from assms have "shared_keys iter (build_map (RA g)) (build_map (CA g)) = []"
    using shared_keys_set [of iter "RA g" "CA g"] by simp
  then show ?thesis by (simp add: group_step_def Let_def)
qed

lemma step_nonempty:
  assumes "iter_ok iter" "keys_of (RA g) \<inter> keys_of (CA g) \<noteq> {}"
  shows "\<exists>fixed moving. matched_on_shared (RA g) (CA g) fixed moving \<and> fixed \<noteq> []
     \<and> length fixed = length moving
     \<and> (\<forall>h r. group_step iter fit tr RA CA cv (h, r) g =
          (case fit (coords_of h fixed) (coords_of h moving) of
             Inl e \<Rightarrow> Inl e
           | Inr (rt, rms) \<Rightarrow>
               Inr (apply_transform tr rt (get_atoms cv) h, AList.update g (Some rms) r)))"
proof -
  let ?ks = "shared_keys iter (build_map (RA g)) (build_map (CA g))"
  from group_step_eq [OF assms(1), of RA g CA fit tr cv] obtain fixed moving where
    fm: "map atom_key fixed = ?ks" "map atom_key moving = ?ks"
      "set fixed \<subseteq> set (RA g)" "set moving \<subseteq> set (CA g)"
    and step: "\<And>h res. group_step iter fit tr RA CA cv (h, res) g =
          (if fixed = [] then Inr (h, AList.update g None res)
           else (case fit (coords_of h fixed) (coords_of h moving) of
                   Inl e \<Rightarrow> Inl e
                 | Inr (rt, rms) \<Rightarrow>
                     Inr (apply_transform tr rt (get_atoms cv) h,
                          AList.update g (Some rms) res)))"
    by blast
  have ks: "set ?ks = keys_of (RA g) \<inter> keys_of (CA g)" "distinct ?ks"
    using shared_keys_set [OF assms(1)] shared_keys_distinct [OF assms(1)] by simp_all
  with fm have m: "matched_on_shared (RA g) (CA g) fixed moving"
    by (simp add: matched_on_shared_def)
  from ks(1) assms(2) have "?ks \<noteq> []" by auto
  with fm(1) have ne: "fixed \<noteq> []" by auto
  from fm(1,2) have len: "length fixed = length moving" by (metis length_map)
  from ne step have "\<forall>h r. group_step iter fit tr RA CA cv (h, r) g =
          (case fit (coords_of h fixed) (coords_of h moving) of
             Inl e \<Rightarrow> Inl e
           | Inr (rt, rms) \<Rightarrow>
               Inr (apply_transform tr rt (get_atoms cv) h, AList.update g (Some rms) r))"
    by simp
  with m ne len show ?thesis by blast
qed

lemma step_fitted:
  assumes "iter_ok iter" "fit_defined fit" "keys_of (RA g) \<inter> keys_of (CA g) \<noteq> {}"
  shows "\<exists>fixed moving rt rms. matched_on_shared (RA g) (CA g) fixed moving
     \<and> fit (coords_of h fixed) (coords_of h moving) = Inr (rt, rms)
     \<and> group_step iter fit tr RA CA cv (h, r) g
         = Inr (apply_transform tr rt (get_atoms cv) h, AList.update g (Some rms) r)"
proof -
  from step_nonempty [where RA = RA and CA = CA and g = g and fit = fit and tr = tr and cv = cv,
      OF assms(1,3)] obtain fixed moving where
    m: "matched_on_shared (RA g) (CA g) fixed moving" and ne: "fixed \<noteq> []"
    and len: "length fixed = length moving"
    and step: "\<And>h r. group_step iter fit tr RA CA cv (h, r) g =
          (case fit (coords_of h fixed) (coords_of h moving) of
             Inl e \<Rightarrow> Inl e
           | Inr (rt, rms) \<Rightarrow>
               Inr (apply_transform tr rt (get_atoms cv) h, AList.update g (Some rms) r))"
    by blast
  from ne len have "length (coords_of h fixed) = length (coords_of h moving)"
    "coords_of h fixed \<noteq> []" by (simp_all add: coords_of_def)
  with assms(2) obtain res where "fit (coords_of h fixed) (coords_of h moving) = Inr res"
    unfolding fit_defined_def by blast
  then obtain rt rms where fit: "fit (coords_of h fixed) (coords_of h moving) = Inr (rt, rms)"
    by (cases res) auto
  with step [of h r] have "group_step iter fit tr RA CA cv (h, r) g
         = Inr (apply_transform tr rt (get_atoms cv) h, AList.update g (Some rms) r)"
    by simp
  with m fit show ?thesis by blast
qed

lemma write_rows_zip:
  "length vs = length gs \<Longrightarrow>
     map fst (write_rows RA (zip gs vs)) = gs
     \<and> (\<forall>row \<in> set (write_rows RA (zip gs vs)).
          \<exists>v. (fst row, v) \<in> set (zip gs vs)
              \<and> row = (fst row, n_atoms (RA (fst row)), rmsd_cell v))"
  by (auto simp: write_rows_def comp_def case_prod_unfold)

lemma report_rows:
  assumes "\<And>h r g. g \<in> set group_names \<Longrightarrow>
      \<exists>h' v. group_step iter fit tr (atom_groups is_aa ref_chain loops ec ic)
                (atom_groups is_aa cv_chain loops ec ic) cv_chain (h, r) g
              = Inr (h', AList.update g v r) \<and> Q g v"
  shows "\<exists>heap' vs.
      main_report is_aa iter fit tr ref_chain cv_chain loops ec ic heap
        = Inr (heap', write_rows (atom_groups is_aa ref_chain loops ec ic) (zip group_names vs))
      \<and> list_all2 Q group_names vs"
proof -
  have "distinct group_names" by (simp add: group_names_def)
  with main_loop_results [of group_names iter fit tr _ _ cv_chain Q "[]" heap, OF assms]
  obtain h' vs where
    "main_loop iter fit tr (atom_groups is_aa ref_chain loops ec ic)
       (atom_groups is_aa cv_chain loops ec ic) cv_chain group_names (heap, [])
     = Inr (h', zip group_names vs)" "list_all2 Q group_names vs"
    by auto
  then show ?thesis by (auto simp: main_report_def Let_def)
qed


lemma report_outcomes:
  assumes "iter_ok iter" and "fit_defined fit"
  shows "\<exists>heap' vs.
     main_report is_aa iter fit tr ref_chain cv_chain loops ec ic heap
       = Inr (heap', write_rows (atom_groups is_aa ref_chain loops ec ic) (zip group_names vs))
     \<and> list_all2
          (\<lambda>g v. if keys_of (atom_groups is_aa ref_chain loops ec ic g)
                      \<inter> keys_of (atom_groups is_aa cv_chain loops ec ic g) = {}
                 then v = None
                 else \<exists>h fixed moving rt rms.
                        matched_on_shared (atom_groups is_aa ref_chain loops ec ic g)
                          (atom_groups is_aa cv_chain loops ec ic g) fixed moving
                        \<and> fit (coords_of h fixed) (coords_of h moving) = Inr (rt, rms)
                        \<and> v = Some rms)
          group_names vs"
proof -
  let ?RA = "atom_groups is_aa ref_chain loops ec ic"
  let ?CA = "atom_groups is_aa cv_chain loops ec ic"
  let ?Q = "\<lambda>g v. if keys_of (?RA g) \<inter> keys_of (?CA g) = {} then v = None
        else \<exists>h fixed moving rt rms. matched_on_shared (?RA g) (?CA g) fixed moving
               \<and> fit (coords_of h fixed) (coords_of h moving) = Inr (rt, rms)
               \<and> v = Some rms"
  have step: "\<exists>h' v. group_step iter fit tr ?RA ?CA cv_chain (h, r) g
              = Inr (h', AList.update g v r) \<and> ?Q g v" for h r g
  proof (cases "keys_of (?RA g) \<inter> keys_of (?CA g) = {}")
    case True
    with step_empty [where RA = ?RA and CA = ?CA and g = g and fit = fit and tr = tr
        and cv = cv_chain and h = h and r = r, OF assms(1) True] show ?thesis by auto
  next
    case False
    from step_fitted [where RA = ?RA and CA = ?CA and g = g and tr = tr and cv = cv_chain
        and h = h and r = r, OF assms False]
    obtain fixed moving rt rms where
      m: "matched_on_shared (?RA g) (?CA g) fixed moving"
      "fit (coords_of h fixed) (coords_of h moving) = Inr (rt, rms)"
      and s: "group_step iter fit tr ?RA ?CA cv_chain (h, r) g
         = Inr (apply_transform tr rt (get_atoms cv_chain) h, AList.update g (Some rms) r)"
      by blast
    from False m have "?Q g (Some rms)" by auto
    with s show ?thesis by blast
  qed
  from report_rows [of iter fit tr is_aa ref_chain loops ec ic cv_chain ?Q heap, OF step]
  show ?thesis .
qed

lemma zip_partner: "length vs = length gs \<Longrightarrow> g \<in> set gs \<Longrightarrow> \<exists>v. (g, v) \<in> set (zip gs vs)"
  by (metis in_set_conv_nth in_set_zip fst_conv snd_conv)

lemma write_rows_member:
  "(g, v) \<in> set results \<Longrightarrow> (g, n_atoms (RA g), rmsd_cell v) \<in> set (write_rows RA results)"
  by (force simp: write_rows_def)



subsection \<open>Groups without a match\<close>

lemma rmsd_cell_None: "rmsd_cell None = ''NA''"
  by (simp add: rmsd_cell_def)

text \<open>
  Claim C4. A group whose two sides share no key raises nothing, whatever the engine
  would do: the step leaves the heap as it is and stores an absent \<open>rms\<close> for the group,
  the loop goes on with the next group, and the row shows \<open>NA\<close>. With an engine that
  does not raise, the report has its five rows, in the order of the groups, and the row
  of every such group shows \<open>NA\<close>.
\<close>

theorem empty_match_is_not_an_error:
  assumes "iter_ok iter"
  shows "(keys_of (RA g) \<inter> keys_of (CA g) = {} \<longrightarrow>
            group_step iter fit tr RA CA cv (h, res) g = Inr (h, AList.update g None res)
            \<and> main_loop iter fit tr RA CA cv (g # gs) (h, res)
                = main_loop iter fit tr RA CA cv gs (h, AList.update g None res)
            \<and> map_of (AList.update g None res) g = Some None
            \<and> write_rows RA [(g, None)] = [(g, n_atoms (RA g), ''NA'')])
     \<and> (fit_defined fit \<longrightarrow>
          (\<exists>heap' rows.
             main_report is_aa iter fit tr ref_chain cv_chain loops ec ic heap = Inr (heap', rows)
             \<and> map fst rows = group_names \<and> length rows = 5
             \<and> (\<forall>grp \<in> set group_names.
                   keys_of (atom_groups is_aa ref_chain loops ec ic grp)
                     \<inter> keys_of (atom_groups is_aa cv_chain loops ec ic grp) = {}
                   \<longrightarrow> (grp, n_atoms (atom_groups is_aa ref_chain loops ec ic grp), ''NA'')
                         \<in> set rows)))"
proof (intro conjI impI)
  assume e: "keys_of (RA g) \<inter> keys_of (CA g) = {}"
  from step_empty [where RA = RA and CA = CA and g = g and fit = fit and tr = tr and cv = cv
      and h = h and r = res, OF assms e]
  show s: "group_step iter fit tr RA CA cv (h, res) g = Inr (h, AList.update g None res)" .
  then show "main_loop iter fit tr RA CA cv (g # gs) (h, res)
                = main_loop iter fit tr RA CA cv gs (h, AList.update g None res)"
    by simp
  show "map_of (AList.update g None res) g = Some None"
    by (simp add: update_conv')
  show "write_rows RA [(g, None)] = [(g, n_atoms (RA g), ''NA'')]"
    by (simp add: write_rows_def rmsd_cell_None)
next
  assume fd: "fit_defined fit"
  let ?RA = "atom_groups is_aa ref_chain loops ec ic"
  let ?CA = "atom_groups is_aa cv_chain loops ec ic"
  let ?Q = "\<lambda>g v. if keys_of (?RA g) \<inter> keys_of (?CA g) = {} then v = None
        else \<exists>h fixed moving rt rms. matched_on_shared (?RA g) (?CA g) fixed moving
               \<and> fit (coords_of h fixed) (coords_of h moving) = Inr (rt, rms)
               \<and> v = Some rms"
  from report_outcomes [OF assms fd, of is_aa tr ref_chain cv_chain loops ec ic heap]
  obtain heap' vs where
    run: "main_report is_aa iter fit tr ref_chain cv_chain loops ec ic heap
        = Inr (heap', write_rows ?RA (zip group_names vs))"
    and q: "list_all2 ?Q group_names vs"
    by blast
  from q have len: "length vs = length group_names" by (simp add: list_all2_lengthD)
  from write_rows_zip [OF len, of ?RA]
  have names: "map fst (write_rows ?RA (zip group_names vs)) = group_names" by blast
  then have "length (write_rows ?RA (zip group_names vs)) = length group_names"
    by (metis length_map)
  then have five: "length (write_rows ?RA (zip group_names vs)) = 5"
    by (simp add: group_names_def)
  have na: "\<forall>grp \<in> set group_names. keys_of (?RA grp) \<inter> keys_of (?CA grp) = {}
      \<longrightarrow> (grp, n_atoms (?RA grp), ''NA'') \<in> set (write_rows ?RA (zip group_names vs))"
  proof (intro ballI impI)
    fix grp assume g: "grp \<in> set group_names"
      and e: "keys_of (?RA grp) \<inter> keys_of (?CA grp) = {}"
    from zip_partner [OF len g] obtain v where v: "(grp, v) \<in> set (zip group_names vs)" ..
    with q have "?Q grp v" unfolding list_all2_iff by blast
    with e have "v = None" by simp
    with write_rows_member [OF v, of ?RA]
    show "(grp, n_atoms (?RA grp), ''NA'') \<in> set (write_rows ?RA (zip group_names vs))"
      by (simp add: rmsd_cell_None)
  qed
  from run names five na
  show "\<exists>heap' rows.
             main_report is_aa iter fit tr ref_chain cv_chain loops ec ic heap = Inr (heap', rows)
             \<and> map fst rows = group_names \<and> length rows = 5
             \<and> (\<forall>grp \<in> set group_names.
                   keys_of (?RA grp) \<inter> keys_of (?CA grp) = {}
                   \<longrightarrow> (grp, n_atoms (?RA grp), ''NA'') \<in> set rows)"
    by blast
qed

theorem empty_match_is_not_an_error_witness:
  "iter_ok (\<lambda>ks. ks) \<and> fit_defined ex_fit
   \<and> keys_of (atom_groups std_residue ex_ref_chain [(10, 12)] [(12, 13)] [] ''ec'')
       \<inter> keys_of (atom_groups std_residue ex_cv_chain [(10, 12)] [(12, 13)] [] ''ec'') = {}
   \<and> group_step (\<lambda>ks. ks) ex_fit ex_translate
        (atom_groups std_residue ex_ref_chain [(10, 12)] [(12, 13)] [])
        (atom_groups std_residue ex_cv_chain [(10, 12)] [(12, 13)] []) ex_cv_chain
        (ex_heap, [(''all'', Some 0)]) ''ec''
      = Inr (ex_heap, [(''all'', Some 0), (''ec'', None)])
   \<and> (\<exists>heap' rows.
        main_report std_residue (\<lambda>ks. ks) ex_fit ex_translate
          ex_ref_chain ex_cv_chain [(10, 12)] [(12, 13)] [] ex_heap = Inr (heap', rows)
        \<and> length rows = 5 \<and> (''ec'', 2, ''NA'') \<in> set rows)"
proof -
  note t = empty_match_is_not_an_error [OF ex_iter_ok,
      where RA = "atom_groups std_residue ex_ref_chain [(10, 12)] [(12, 13)] []"
      and CA = "atom_groups std_residue ex_cv_chain [(10, 12)] [(12, 13)] []"
      and g = "''ec''" and fit = ex_fit and tr = ex_translate
      and cv = ex_cv_chain and h = ex_heap and res = "[(''all'', Some 0)]" and gs = "[]"
      and is_aa = std_residue and ref_chain = ex_ref_chain and cv_chain = ex_cv_chain
      and loops = "[(10, 12)]" and ec = "[(12, 13)]" and ic = "[]" and heap = ex_heap]
  from t have "group_step (\<lambda>ks. ks) ex_fit ex_translate
        (atom_groups std_residue ex_ref_chain [(10, 12)] [(12, 13)] [])
        (atom_groups std_residue ex_cv_chain [(10, 12)] [(12, 13)] []) ex_cv_chain
        (ex_heap, [(''all'', Some 0)]) ''ec''
      = Inr (ex_heap, [(''all'', Some 0), (''ec'', None)])"
    by (simp add: ex_keys)
  moreover from t ex_fit_defined obtain heap' rows where
    "main_report std_residue (\<lambda>ks. ks) ex_fit ex_translate
          ex_ref_chain ex_cv_chain [(10, 12)] [(12, 13)] [] ex_heap = Inr (heap', rows)"
    "length rows = 5"
    "\<forall>grp \<in> set group_names.
        keys_of (atom_groups std_residue ex_ref_chain [(10, 12)] [(12, 13)] [] grp)
          \<inter> keys_of (atom_groups std_residue ex_cv_chain [(10, 12)] [(12, 13)] [] grp) = {}
        \<longrightarrow> (grp, n_atoms (atom_groups std_residue ex_ref_chain [(10, 12)] [(12, 13)] [] grp), ''NA'')
              \<in> set rows"
    by blast
  moreover from this(3) have "(''ec'', 2, ''NA'') \<in> set rows"
    using ex_keys(2) ex_n_atoms by (simp add: group_names_def)
  ultimately show ?thesis
    using ex_iter_ok ex_fit_defined ex_keys(2) by blast
qed

subsection \<open>The order of the matched atoms, and the transform in place\<close>

text \<open>
  Claim C9. For a group with a shared key, both comprehensions of lines 127 and 128
  succeed, and the two atom lists they hand to the engine have the same length and, at
  every index, the same key, which is the key at that index of the one iteration order;
  the step is the engine's result on the coordinates of exactly these two lists.
\<close>

theorem matched_lists_share_order:
  assumes "iter_ok iter" and "keys_of (RA g) \<inter> keys_of (CA g) \<noteq> {}"
  shows "\<exists>fixed moving.
      getitems (build_map (RA g)) (shared_keys iter (build_map (RA g)) (build_map (CA g)))
        = Inr fixed
      \<and> getitems (build_map (CA g)) (shared_keys iter (build_map (RA g)) (build_map (CA g)))
        = Inr moving
      \<and> length fixed = length moving \<and> fixed \<noteq> []
      \<and> (\<forall>i < length fixed.
            atom_key (fixed ! i) = atom_key (moving ! i)
            \<and> atom_key (fixed ! i) = shared_keys iter (build_map (RA g)) (build_map (CA g)) ! i
            \<and> fixed ! i \<in> set (RA g) \<and> moving ! i \<in> set (CA g))
      \<and> (\<forall>h r. group_step iter fit tr RA CA cv (h, r) g =
            (case fit (coords_of h fixed) (coords_of h moving) of
               Inl e \<Rightarrow> Inl e
             | Inr (rt, rms) \<Rightarrow>
                 Inr (apply_transform tr rt (get_atoms cv) h, AList.update g (Some rms) r)))"
proof -
  let ?ks = "shared_keys iter (build_map (RA g)) (build_map (CA g))"
  from matched_lists [OF assms(1), of "RA g" "CA g"] obtain fixed moving where
    fm: "getitems (build_map (RA g)) ?ks = Inr fixed" "getitems (build_map (CA g)) ?ks = Inr moving"
      "map atom_key fixed = ?ks" "map atom_key moving = ?ks"
      "set fixed \<subseteq> set (RA g)" "set moving \<subseteq> set (CA g)"
    by blast
  from shared_keys_set [OF assms(1), of "RA g" "CA g"] assms(2) have kne: "?ks \<noteq> []" by auto
  with fm(3) have ne: "fixed \<noteq> []" by auto
  from fm(3,4) have len: "length fixed = length moving" by (metis length_map)
  have idx: "\<forall>i < length fixed.
            atom_key (fixed ! i) = atom_key (moving ! i)
            \<and> atom_key (fixed ! i) = ?ks ! i
            \<and> fixed ! i \<in> set (RA g) \<and> moving ! i \<in> set (CA g)"
  proof (intro allI impI)
    fix i assume i: "i < length fixed"
    with len have i': "i < length moving" by simp
    from i have "atom_key (fixed ! i) = map atom_key fixed ! i" by simp
    moreover from i' have "atom_key (moving ! i) = map atom_key moving ! i" by simp
    ultimately have "atom_key (fixed ! i) = ?ks ! i" "atom_key (moving ! i) = ?ks ! i"
      using fm(3,4) by simp_all
    moreover from i i' fm(5,6) have "fixed ! i \<in> set (RA g)" "moving ! i \<in> set (CA g)"
      by (auto dest: nth_mem)
    ultimately show "atom_key (fixed ! i) = atom_key (moving ! i)
            \<and> atom_key (fixed ! i) = ?ks ! i
            \<and> fixed ! i \<in> set (RA g) \<and> moving ! i \<in> set (CA g)" by simp
  qed
  have step: "\<forall>h r. group_step iter fit tr RA CA cv (h, r) g =
            (case fit (coords_of h fixed) (coords_of h moving) of
               Inl e \<Rightarrow> Inl e
             | Inr (rt, rms) \<Rightarrow>
                 Inr (apply_transform tr rt (get_atoms cv) h, AList.update g (Some rms) r))"
    using kne by (simp add: group_step_def Let_def fm(1,2))
  from fm(1,2) len ne idx step show ?thesis by blast
qed

theorem matched_lists_share_order_witness:
  "iter_ok rev
   \<and> keys_of (atom_groups std_residue ex_ref_chain [(10, 12)] [(12, 13)] [] ''all'')
       \<inter> keys_of (atom_groups std_residue ex_cv_chain [(10, 12)] [(12, 13)] [] ''all'') \<noteq> {}
   \<and> shared_keys rev
        (build_map (atom_groups std_residue ex_ref_chain [(10, 12)] [(12, 13)] [] ''all''))
        (build_map (atom_groups std_residue ex_cv_chain [(10, 12)] [(12, 13)] [] ''all''))
      = [(10, ''CA''), (10, ''N'')]
   \<and> (\<exists>fixed moving.
        getitems (build_map (atom_groups std_residue ex_ref_chain [(10, 12)] [(12, 13)] [] ''all''))
          [(10, ''CA''), (10, ''N'')] = Inr fixed
        \<and> getitems (build_map (atom_groups std_residue ex_cv_chain [(10, 12)] [(12, 13)] [] ''all''))
          [(10, ''CA''), (10, ''N'')] = Inr moving
        \<and> fixed = [\<lparr>atom_name = ''CA'', atom_parent = ex_ala, atom_addr = 1\<rparr>,
                    \<lparr>atom_name = ''N'', atom_parent = ex_ala, atom_addr = 0\<rparr>]
        \<and> moving = [\<lparr>atom_name = ''CA'', atom_parent = ex_ala, atom_addr = 101\<rparr>,
                     \<lparr>atom_name = ''N'', atom_parent = ex_ala, atom_addr = 100\<rparr>]
        \<and> atom_key (fixed ! 0) = atom_key (moving ! 0) \<and> atom_key (fixed ! 0) = (10, ''CA'')
        \<and> atom_key (fixed ! 1) = atom_key (moving ! 1) \<and> atom_key (fixed ! 1) = (10, ''N''))"
proof -
  let ?RA = "atom_groups std_residue ex_ref_chain [(10, 12)] [(12, 13)] []"
  let ?CA = "atom_groups std_residue ex_cv_chain [(10, 12)] [(12, 13)] []"
  have k: "keys_of (?RA ''all'') \<inter> keys_of (?CA ''all'') \<noteq> {}"
    by (simp add: ex_keys)
  from matched_lists_share_order [OF rev_iter_ok, where RA = ?RA and CA = ?CA and g = "''all''",
      OF k]
  obtain fixed moving where
    f: "getitems (build_map (?RA ''all'')) (shared_keys rev (build_map (?RA ''all''))
          (build_map (?CA ''all''))) = Inr fixed"
    and m: "getitems (build_map (?CA ''all'')) (shared_keys rev (build_map (?RA ''all''))
          (build_map (?CA ''all''))) = Inr moving"
    and i: "\<forall>i < length fixed. atom_key (fixed ! i) = atom_key (moving ! i)
        \<and> atom_key (fixed ! i)
            = shared_keys rev (build_map (?RA ''all'')) (build_map (?CA ''all'')) ! i
        \<and> fixed ! i \<in> set (?RA ''all'') \<and> moving ! i \<in> set (?CA ''all'')"
    by blast
  from f m have fv: "fixed = [\<lparr>atom_name = ''CA'', atom_parent = ex_ala, atom_addr = 1\<rparr>,
                    \<lparr>atom_name = ''N'', atom_parent = ex_ala, atom_addr = 0\<rparr>]"
    and mv: "moving = [\<lparr>atom_name = ''CA'', atom_parent = ex_ala, atom_addr = 101\<rparr>,
                     \<lparr>atom_name = ''N'', atom_parent = ex_ala, atom_addr = 100\<rparr>]"
    by (simp_all add: ex_matched)
  from fv have "0 < length fixed" "1 < length fixed" by simp_all
  with i have "atom_key (fixed ! 0) = atom_key (moving ! 0)"
    "atom_key (fixed ! 0)
       = shared_keys rev (build_map (?RA ''all'')) (build_map (?CA ''all'')) ! 0"
    "atom_key (fixed ! 1) = atom_key (moving ! 1)"
    "atom_key (fixed ! 1)
       = shared_keys rev (build_map (?RA ''all'')) (build_map (?CA ''all'')) ! 1"
    by blast+
  then have "atom_key (fixed ! 0) = atom_key (moving ! 0)" "atom_key (fixed ! 0) = (10, ''CA'')"
    "atom_key (fixed ! 1) = atom_key (moving ! 1)" "atom_key (fixed ! 1) = (10, ''N'')"
    by (simp_all add: ex_matched(1))
  with f m fv mv show ?thesis
    using rev_iter_ok k ex_matched(1) by (simp add: ex_matched)
qed

lemma group_step_heap_outside:
  assumes "group_step iter fit tr RA CA cv (h, res) g = Inr (h', res')"
    and "addr \<notin> atom_addr ` set (get_atoms cv)"
  shows "h' addr = h addr"
  using assms
  by (auto simp: group_step_def Let_def apply_transform_other
      split: if_splits sum.splits prod.splits)

lemma main_loop_heap_outside:
  "main_loop iter fit tr RA CA cv gs (h, res) = Inr (h', res')
     \<Longrightarrow> addr \<notin> atom_addr ` set (get_atoms cv) \<Longrightarrow> h' addr = h addr"
proof (induction gs arbitrary: h res)
  case Nil
  then show ?case by simp
next
  case (Cons g gs)
  from Cons.prems(1) obtain h1 res1 where
    s: "group_step iter fit tr RA CA cv (h, res) g = Inr (h1, res1)"
    and r: "main_loop iter fit tr RA CA cv gs (h1, res1) = Inr (h', res')"
    by (auto split: sum.splits)
  from Cons.IH [OF r Cons.prems(2)] group_step_heap_outside [OF s Cons.prems(2)]
  show ?case by simp
qed

text \<open>
  Claim C2. The chains are as the parser builds them: the target chain holds every atom
  object once, and no atom object belongs to both structures. When the step of a group
  with a shared key returns, the transform it has applied is the one the engine returned
  for the two lists this group matched on its shared keys, at the coordinates they had
  before the step. Every atom of the target chain, in whatever residue, has had this
  transform applied to its coordinate, no coordinate of the reference chain has changed,
  the target coordinates that any group reads afterwards are the transformed ones, and
  the loop goes on from this heap. At the end of a run no coordinate of the reference
  chain has changed.
\<close>

theorem transform_applied_to_whole_target_chain:
  assumes "iter_ok iter" and "wf_chain cv_chain"
    and "atom_addr ` set (get_atoms ref_chain) \<inter> atom_addr ` set (get_atoms cv_chain) = {}"
    and "keys_of (atom_groups is_aa ref_chain loops ec ic g)
           \<inter> keys_of (atom_groups is_aa cv_chain loops ec ic g) \<noteq> {}"
    and "group_step iter fit tr (atom_groups is_aa ref_chain loops ec ic)
           (atom_groups is_aa cv_chain loops ec ic) cv_chain (h, res) g = Inr (h', res')"
  shows "\<exists>fixed moving rt rms.
      getitems (build_map (atom_groups is_aa ref_chain loops ec ic g))
        (shared_keys iter (build_map (atom_groups is_aa ref_chain loops ec ic g))
           (build_map (atom_groups is_aa cv_chain loops ec ic g))) = Inr fixed
      \<and> getitems (build_map (atom_groups is_aa cv_chain loops ec ic g))
        (shared_keys iter (build_map (atom_groups is_aa ref_chain loops ec ic g))
           (build_map (atom_groups is_aa cv_chain loops ec ic g))) = Inr moving
      \<and> fit (coords_of h fixed) (coords_of h moving) = Inr (rt, rms)
      \<and> res' = AList.update g (Some rms) res
      \<and> h' = apply_transform tr rt (get_atoms cv_chain) h
      \<and> (\<forall>a \<in> set (get_atoms cv_chain). h' (atom_addr a) = tr rt (h (atom_addr a)))
      \<and> (\<forall>a \<in> set (get_atoms ref_chain). h' (atom_addr a) = h (atom_addr a))
      \<and> (\<forall>g2. coords_of h' (atom_groups is_aa cv_chain loops ec ic g2)
                 = map (tr rt) (coords_of h (atom_groups is_aa cv_chain loops ec ic g2))
               \<and> coords_of h' (atom_groups is_aa ref_chain loops ec ic g2)
                 = coords_of h (atom_groups is_aa ref_chain loops ec ic g2))
      \<and> main_loop iter fit tr (atom_groups is_aa ref_chain loops ec ic)
           (atom_groups is_aa cv_chain loops ec ic) cv_chain (g # gs) (h, res)
         = main_loop iter fit tr (atom_groups is_aa ref_chain loops ec ic)
             (atom_groups is_aa cv_chain loops ec ic) cv_chain gs (h', res')
      \<and> (\<forall>heap heap' rows.
            main_report is_aa iter fit tr ref_chain cv_chain loops ec ic heap = Inr (heap', rows)
            \<longrightarrow> (\<forall>a \<in> set (get_atoms ref_chain). heap' (atom_addr a) = heap (atom_addr a)))"
proof -
  let ?RA = "atom_groups is_aa ref_chain loops ec ic"
  let ?CA = "atom_groups is_aa cv_chain loops ec ic"
  let ?ks = "shared_keys iter (build_map (?RA g)) (build_map (?CA g))"
  from matched_lists [OF assms(1), of "?RA g" "?CA g"] obtain fixed moving where
    f: "getitems (build_map (?RA g)) ?ks = Inr fixed"
    and m: "getitems (build_map (?CA g)) ?ks = Inr moving"
    by blast
  from shared_keys_set [OF assms(1), of "?RA g" "?CA g"] assms(4) have kne: "?ks \<noteq> []"
    by auto
  have step: "group_step iter fit tr ?RA ?CA cv_chain (h, res) g =
          (case fit (coords_of h fixed) (coords_of h moving) of
             Inl e \<Rightarrow> Inl e
           | Inr (rt, rms) \<Rightarrow>
               Inr (apply_transform tr rt (get_atoms cv_chain) h, AList.update g (Some rms) res))"
    using kne by (simp add: group_step_def Let_def f m)
  with assms(5) obtain rt rms where
    fit: "fit (coords_of h fixed) (coords_of h moving) = Inr (rt, rms)"
    and h': "h' = apply_transform tr rt (get_atoms cv_chain) h"
    and res': "res' = AList.update g (Some rms) res"
    by (auto split: sum.splits prod.splits)
  from assms(2) have dist: "distinct (map atom_addr (get_atoms cv_chain))"
    by (simp add: wf_chain_def)
  have cv: "\<forall>a \<in> set (get_atoms cv_chain). h' (atom_addr a) = tr rt (h (atom_addr a))"
    by (simp add: h' apply_transform_at [OF dist])
  have out: "\<forall>a \<in> set (get_atoms ref_chain). atom_addr a \<notin> atom_addr ` set (get_atoms cv_chain)"
    using assms(3) by auto
  then have ref: "\<forall>a \<in> set (get_atoms ref_chain). h' (atom_addr a) = h (atom_addr a)"
    using h' by (simp add: apply_transform_other)
  have later: "\<forall>g2. coords_of h' (?CA g2) = map (tr rt) (coords_of h (?CA g2))
               \<and> coords_of h' (?RA g2) = coords_of h (?RA g2)"
  proof
    fix g2
    have "set (?CA g2) \<subseteq> set (get_atoms cv_chain)" "set (?RA g2) \<subseteq> set (get_atoms ref_chain)"
      by (rule atom_groups_subset_chain)+
    with cv ref show "coords_of h' (?CA g2) = map (tr rt) (coords_of h (?CA g2))
               \<and> coords_of h' (?RA g2) = coords_of h (?RA g2)"
      by (auto simp: coords_of_def)
  qed
  have loop: "main_loop iter fit tr ?RA ?CA cv_chain (g # gs) (h, res)
         = main_loop iter fit tr ?RA ?CA cv_chain gs (h', res')"
    using assms(5) by simp
  have whole: "\<forall>heap heap' rows.
            main_report is_aa iter fit tr ref_chain cv_chain loops ec ic heap = Inr (heap', rows)
            \<longrightarrow> (\<forall>a \<in> set (get_atoms ref_chain). heap' (atom_addr a) = heap (atom_addr a))"
  proof (intro allI impI ballI)
    fix heap heap' rows a
    assume "main_report is_aa iter fit tr ref_chain cv_chain loops ec ic heap = Inr (heap', rows)"
      and a: "a \<in> set (get_atoms ref_chain)"
    then obtain results where
      "main_loop iter fit tr ?RA ?CA cv_chain group_names (heap, []) = Inr (heap', results)"
      by (auto simp: main_report_def Let_def split: sum.splits prod.splits)
    from main_loop_heap_outside [OF this] out a
    show "heap' (atom_addr a) = heap (atom_addr a)" by blast
  qed
  from f m fit res' h' cv ref later loop whole show ?thesis by blast
qed

theorem transform_applied_to_whole_target_chain_witness:
  "iter_ok rev \<and> wf_chain ex_cv_chain
   \<and> atom_addr ` set (get_atoms ex_ref_chain) \<inter> atom_addr ` set (get_atoms ex_cv_chain) = {}
   \<and> keys_of (atom_groups std_residue ex_ref_chain [(10, 12)] [(12, 13)] [] ''all'')
       \<inter> keys_of (atom_groups std_residue ex_cv_chain [(10, 12)] [(12, 13)] [] ''all'') \<noteq> {}
   \<and> (\<exists>h'. group_step rev ex_fit ex_translate
          (atom_groups std_residue ex_ref_chain [(10, 12)] [(12, 13)] [])
          (atom_groups std_residue ex_cv_chain [(10, 12)] [(12, 13)] []) ex_cv_chain
          (ex_heap, []) ''all'' = Inr (h', [(''all'', Some 0)])
        \<and> ex_heap 104 = (104, 208, 0) \<and> h' 104 = (4, 8, 0)
        \<and> ex_heap 102 = (102, 204, 0) \<and> h' 102 = (2, 4, 0)
        \<and> ex_heap 4 = (4, 8, 0) \<and> h' 4 = (4, 8, 0))"
proof -
  let ?RA = "atom_groups std_residue ex_ref_chain [(10, 12)] [(12, 13)] []"
  let ?CA = "atom_groups std_residue ex_cv_chain [(10, 12)] [(12, 13)] []"
  have k: "keys_of (?RA ''all'') \<inter> keys_of (?CA ''all'') \<noteq> {}"
    by (simp add: ex_keys)
  from step_fitted [where RA = ?RA and CA = ?CA and g = "''all''" and tr = ex_translate
      and cv = ex_cv_chain and h = ex_heap and r = "[]", OF rev_iter_ok ex_fit_defined k]
  obtain h' res' where
    s: "group_step rev ex_fit ex_translate ?RA ?CA ex_cv_chain (ex_heap, []) ''all''
          = Inr (h', res')"
    by blast
  from transform_applied_to_whole_target_chain [OF rev_iter_ok ex_chain_facts(1,2) k s]
  obtain fixed moving rt rms where
    f: "getitems (build_map (?RA ''all''))
          (shared_keys rev (build_map (?RA ''all'')) (build_map (?CA ''all''))) = Inr fixed"
    and m: "getitems (build_map (?CA ''all''))
          (shared_keys rev (build_map (?RA ''all'')) (build_map (?CA ''all''))) = Inr moving"
    and fit: "ex_fit (coords_of ex_heap fixed) (coords_of ex_heap moving) = Inr (rt, rms)"
    and res': "res' = AList.update ''all'' (Some rms) []"
    and cv: "\<forall>a \<in> set (get_atoms ex_cv_chain).
        h' (atom_addr a) = ex_translate rt (ex_heap (atom_addr a))"
    and ref: "\<forall>a \<in> set (get_atoms ex_ref_chain). h' (atom_addr a) = ex_heap (atom_addr a)"
    by blast
  from f m have fv: "fixed = [\<lparr>atom_name = ''CA'', atom_parent = ex_ala, atom_addr = 1\<rparr>,
                    \<lparr>atom_name = ''N'', atom_parent = ex_ala, atom_addr = 0\<rparr>]"
    and mv: "moving = [\<lparr>atom_name = ''CA'', atom_parent = ex_ala, atom_addr = 101\<rparr>,
                     \<lparr>atom_name = ''N'', atom_parent = ex_ala, atom_addr = 100\<rparr>]"
    by (simp_all add: ex_matched)
  from fit have "Inr (rt, rms) = (Inr ((- 100, - 200, 0), 0) :: error + point \<times> real)"
    unfolding fv mv by (simp only: ex_fit_value)
  then have rt: "rt = (- 100, - 200, 0)" and rms: "rms = 0"
    by simp_all
  from cv ex_chain_facts(3,4) have "h' 104 = ex_translate rt (ex_heap 104)"
    "h' 102 = ex_translate rt (ex_heap 102)" by force+
  with rt have "h' 104 = (4, 8, 0)" "h' 102 = (2, 4, 0)"
    by (simp_all add: ex_translate_def ex_heap_def)
  moreover from ref ex_chain_facts(5) have "h' 4 = ex_heap 4" by force
  then have "h' 4 = (4, 8, 0)" by (simp add: ex_heap_def)
  moreover have "ex_heap 104 = (104, 208, 0)" "ex_heap 102 = (102, 204, 0)"
    "ex_heap 4 = (4, 8, 0)" by (simp_all add: ex_heap_def)
  moreover from s res' rms have "group_step rev ex_fit ex_translate ?RA ?CA ex_cv_chain
      (ex_heap, []) ''all'' = Inr (h', [(''all'', Some 0)])" by simp
  ultimately show ?thesis
    using rev_iter_ok ex_chain_facts(1,2) k by blast
qed

end
